theory Spec2Isabelle
  imports Main "HOL-Library.Sublist"
begin

section \<open>Python values\<close>

text \<open>
  The extractor handles values whose type Python does not fix: a table cell handed over
  as a URL may be a string, a number or a missing value, and the \<open>date\<close> field of the
  language model's JSON answer may be any JSON value. \<open>pyval\<close> holds the values that
  \<open>json.loads\<close> and a table cell can produce. A \<open>char\<close> stands for one code point of a
  Python \<open>str\<close> (the code points below 256), so \<open>length\<close> is Python's \<open>len\<close>.
  A float is kept only as far as the program observes it: whether it is zero.
\<close>

datatype pyfloat = FNaN | FInf bool | FNum int int

datatype pyval =
    PNone
  | PBool bool
  | PInt int
  | PFloat pyfloat
  | PStr string
  | PList "pyval list"
  | PDict "(string \<times> pyval) list"

text \<open>Python's truth value of an object (\<open>if x\<close>, \<open>not x\<close>, \<open>x or y\<close>).\<close>

fun truthy :: "pyval \<Rightarrow> bool" where
  "truthy PNone = False"
| "truthy (PBool b) = b"
| "truthy (PInt i) = (i \<noteq> 0)"
| "truthy (PFloat FNaN) = True"
| "truthy (PFloat (FInf s)) = True"
| "truthy (PFloat (FNum m e)) = (m \<noteq> 0)"
| "truthy (PStr s) = (s \<noteq> [])"
| "truthy (PList xs) = (xs \<noteq> [])"
| "truthy (PDict kvs) = (kvs \<noteq> [])"

definition py_or :: "pyval \<Rightarrow> pyval \<Rightarrow> pyval" where
  "py_or a b = (if truthy a then a else b)"

fun isinstance_str :: "pyval \<Rightarrow> bool" where
  "isinstance_str (PStr s) = True"
| "isinstance_str v = False"

fun str_val :: "pyval \<Rightarrow> string" where
  "str_val (PStr s) = s"
| "str_val v = []"

fun opt_str :: "string option \<Rightarrow> pyval" where
  "opt_str None = PNone"
| "opt_str (Some s) = PStr s"

subsection \<open>Strings\<close>

text \<open>
  \<open>str.strip()\<close> removes leading and trailing whitespace. Below code point 256 Python's
  whitespace is: tab, line feed, vertical tab, form feed, carriage return (9 to 13), the
  four separators 28 to 31, the space (32), next line (133) and the no-break space (160).
\<close>

definition is_space :: "char \<Rightarrow> bool" where
  "is_space c = (of_char c \<in> {9, 10, 11, 12, 13, 28, 29, 30, 31, 32, 133, 160 :: nat})"

definition lstrip :: "string \<Rightarrow> string" where
  "lstrip s = dropWhile is_space s"

definition rstrip :: "string \<Rightarrow> string" where
  "rstrip s = rev (dropWhile is_space (rev s))"

definition strip :: "string \<Rightarrow> string" where
  "strip s = rstrip (lstrip s)"

text \<open>\<open>s.startswith(p)\<close> and \<open>s.endswith(p)\<close>.\<close>

definition startswith :: "string \<Rightarrow> string \<Rightarrow> bool" where
  "startswith s p = prefix p s"

definition endswith :: "string \<Rightarrow> string \<Rightarrow> bool" where
  "endswith s p = suffix p s"

text \<open>The slices \<open>s[n:]\<close>, \<open>s[:n]\<close> and \<open>s[:-n]\<close> for a literal \<open>n \<ge> 0\<close>.\<close>

definition slice_from :: "nat \<Rightarrow> string \<Rightarrow> string" where
  "slice_from n s = drop n s"

definition slice_to :: "nat \<Rightarrow> string \<Rightarrow> string" where
  "slice_to n s = take n s"

definition slice_drop_last :: "nat \<Rightarrow> string \<Rightarrow> string" where
  "slice_drop_last n s = take (length s - n) s"

text \<open>The Markdown code fence: three backticks (code point 96).\<close>

definition fence :: string where
  "fence = [CHR 0x60, CHR 0x60, CHR 0x60]"

definition fence_json :: string where
  "fence_json = fence @ ''json''"

subsection \<open>Exceptions\<close>

text \<open>
  The exception classes the extractor names in its \<open>except\<close> clauses, and those the
  libraries it calls raise besides. \<open>ArticleException\<close> is the class newspaper raises;
  \<open>ParserError\<close> is dateutil's and \<open>JSONDecodeError\<close> is json's, both subclasses of
  \<open>ValueError\<close>; \<open>RequestException\<close> is a subclass of \<open>OSError\<close>.

  Modelled from the spec: \<open>exceptions.py\<close>, which declares the package's own classes
  \<open>ArticleDownloadError\<close>, \<open>ArticleParseError\<close>, \<open>HTMLFetchError\<close> and
  \<open>LLMExtractionError\<close>, is not among the sources, and the spec names no hierarchy for
  them. They are taken as classes of their own, related to no other class here.
\<close>

datatype exn =
    ArticleDownloadError
  | ArticleParseError
  | HTMLFetchError
  | LLMExtractionError
  | ArticleException
  | ValueError
  | ParserError
  | JSONDecodeError
  | OSError
  | RequestException
  | KeyError
  | TypeError
  | AttributeError
  | OverflowError

definition is_subclass :: "exn \<Rightarrow> exn \<Rightarrow> bool" where
  "is_subclass e c =
     (e = c \<or> (e = ParserError \<and> c = ValueError) \<or> (e = JSONDecodeError \<and> c = ValueError)
      \<or> (e = RequestException \<and> c = OSError))"

text \<open>\<open>except (C1, ..., Cn)\<close> catches an exception that is an instance of one of the classes.\<close>

definition caught :: "exn list \<Rightarrow> exn \<Rightarrow> bool" where
  "caught classes e = list_ex (is_subclass e) classes"

text \<open>
  \<open>try: body  except classes: return handler\<close>: the body's value, the handler's value
  when the body raised a caught exception, and the exception itself otherwise.
\<close>

definition try_except :: "exn + 'a \<Rightarrow> exn list \<Rightarrow> 'a \<Rightarrow> exn + 'a" where
  "try_except body classes handler =
     (case body of
        Inr v \<Rightarrow> Inr v
      | Inl e \<Rightarrow> if caught classes e then Inr handler else Inl e)"

subsection \<open>Dates\<close>

text \<open>
  A \<open>datetime\<close> is observed through \<open>.date()\<close> and \<open>.isoformat()\<close> only: it is kept as
  its calendar date and the text \<open>isoformat()\<close> prints after the \<open>T\<close> (time of day and
  UTC offset).
\<close>

record pydate =
  year :: nat
  month :: nat
  day :: nat

record datetime =
  dt_date :: pydate
  dt_time :: string

text \<open>Decimal digits of a natural number, and \<open>'%0wd' % n\<close>.\<close>

fun dec :: "nat \<Rightarrow> string" where
  "dec n = (if n < 10 then [''0123456789'' ! n] else dec (n div 10) @ [''0123456789'' ! (n mod 10)])"

declare dec.simps [simp del]

definition zpad :: "nat \<Rightarrow> nat \<Rightarrow> string" where
  "zpad w n = replicate (w - length (dec n)) CHR ''0'' @ dec n"

text \<open>\<open>date.isoformat()\<close> is \<open>'%04d-%02d-%02d' % (year, month, day)\<close>.\<close>

definition date_isoformat :: "pydate \<Rightarrow> string" where
  "date_isoformat d = zpad 4 (year d) @ ''-'' @ zpad 2 (month d) @ ''-'' @ zpad 2 (day d)"

definition datetime_isoformat :: "datetime \<Rightarrow> string" where
  "datetime_isoformat dt = date_isoformat (dt_date dt) @ ''T'' @ dt_time dt"

section \<open>The data model (models.py)\<close>

text \<open>
  The dataclass \<open>ExtractionResult\<close>. Its annotations give \<open>extracted_text\<close> and
  \<open>extraction_method\<close> the type \<open>str\<close>; Python does not enforce them, and a field that
  holds \<open>None\<close> is absent, so both are options here. The class body is the seven fields
  and nothing else: it has no method and no class attribute besides them.
\<close>

record ExtractionResult =
  id_value :: string
  url :: string
  extracted_text :: "string option"
  publication_date :: "string option"
  extraction_method :: "string option"
  status :: string
  error_message :: "string option"

text \<open>
  \<open>ExtractionResult.create_error(id_value=..., url=..., error_message=...)\<close>, as
  \<open>extract_from_url\<close> calls it. The class defines no attribute of that name (and a
  dataclass generates none), so looking it up on the class raises \<open>AttributeError\<close>
  before any argument is evaluated.
\<close>

definition create_error :: "string \<Rightarrow> pyval \<Rightarrow> string \<Rightarrow> exn + ExtractionResult" where
  "create_error idv u message = Inl AttributeError"

section \<open>The collaborators\<close>

text \<open>
  What the extractor calls outside this package, each as the outcome of the call (the
  value returned, or the exception raised):
  \<^item> \<open>newspaper_article url\<close>: \<open>Article(url)\<close>, \<open>download()\<close>, \<open>parse()\<close>, giving
    \<open>article.text\<close> and \<open>article.publish_date\<close>;
  \<^item> \<open>fetch_url\<close>, \<open>trafilatura_extract\<close>, \<open>extract_metadata\<close>: trafilatura's three
    functions (\<open>extract_metadata\<close> gives no metadata, or the metadata's \<open>date\<close>);
  \<^item> \<open>requests_get url\<close>: \<open>requests.get\<close> followed by \<open>raise_for_status()\<close>, giving
    \<open>response.text\<close>;
  \<^item> \<open>gemini_query prompt\<close>: the language model's completion (\<open>GeminiAPI.query\<close>, whose
    module is not among the sources: one text in, one text out, or an exception);
  \<^item> \<open>json_loads\<close>: \<open>json.loads\<close>; \<open>date_parse\<close>: \<open>dateutil.parser.parse\<close>;
  \<^item> \<open>py_repr\<close>: the text \<open>str()\<close> gives for a value that is not a string;
  \<^item> \<open>read_csv path\<close>: \<open>pandas.read_csv\<close>.
  Logging has no effect on any result and is left out.
\<close>

record dataframe =
  columns :: "string list"
  rows :: "pyval list list"

record env =
  newspaper_article :: "string \<Rightarrow> exn + (string \<times> datetime option)"
  fetch_url :: "string \<Rightarrow> exn + string option"
  trafilatura_extract :: "string \<Rightarrow> exn + string option"
  extract_metadata :: "string \<Rightarrow> exn + string option option"
  requests_get :: "string \<Rightarrow> exn + string"
  gemini_query :: "string \<Rightarrow> exn + string"
  json_loads :: "string \<Rightarrow> exn + pyval"
  date_parse :: "pyval \<Rightarrow> exn + datetime"
  py_repr :: "pyval \<Rightarrow> string"
  read_csv :: "string \<Rightarrow> exn + dataframe"

text \<open>
  Modelled from the spec: \<open>config.py\<close> is not among the sources. The configuration is
  what the spec describes and \<open>process_csv\<close> reads: the name of the identifier column
  and the names of the URL columns, in their declared order.
\<close>

record Config =
  id_column :: string
  url_columns :: "string list"

text \<open>
  The effects a caller can observe: which extraction stage was invoked on which URL, in
  order, and the tables written, by path.
\<close>

datatype stage = Newspaper | Trafilatura | Gemini

record world =
  calls :: "(stage \<times> string) list"
  files :: "string \<Rightarrow> (string \<times> pyval) list list option"

definition invoke :: "stage \<Rightarrow> string \<Rightarrow> world \<Rightarrow> world" where
  "invoke st u w = w\<lparr>calls := calls w @ [(st, u)]\<rparr>"

section \<open>The extraction stages (extractor.py)\<close>

text \<open>The acceptance test of every stage: \<open>text and len(text) > 100\<close>.\<close>

definition accepted :: "string option \<Rightarrow> bool" where
  "accepted t = (case t of None \<Rightarrow> False | Some s \<Rightarrow> s \<noteq> [] \<and> length s > 100)"

definition extract_with_newspaper :: "env \<Rightarrow> string \<Rightarrow> exn + (string option \<times> pyval)" where
  "extract_with_newspaper env u =
     try_except
       (case newspaper_article env u of
          Inl e \<Rightarrow> Inl e
        | Inr (article_text, publish_date) \<Rightarrow>
            let txt = (if article_text \<noteq> [] then Some (strip article_text) else None);
                date = (case publish_date of
                          Some dt \<Rightarrow> PStr (datetime_isoformat dt)
                        | None \<Rightarrow> PNone)
            in if accepted txt then Inr (txt, date) else Inr (None, PNone))
       [ArticleDownloadError, ArticleParseError, ValueError, OSError]
       (None, PNone)"

definition extract_with_trafilatura :: "env \<Rightarrow> string \<Rightarrow> exn + (string option \<times> pyval)" where
  "extract_with_trafilatura env u =
     try_except
       (case fetch_url env u of
          Inl e \<Rightarrow> Inl e
        | Inr downloaded \<Rightarrow>
            if \<not> truthy (opt_str downloaded) then Inr (None, PNone)
            else
              (case trafilatura_extract env (str_val (opt_str downloaded)) of
                 Inl e \<Rightarrow> Inl e
               | Inr txt \<Rightarrow>
                   (case extract_metadata env (str_val (opt_str downloaded)) of
                      Inl e \<Rightarrow> Inl e
                    | Inr metadata \<Rightarrow>
                        let date = (case metadata of
                                      Some (Some d) \<Rightarrow> if d \<noteq> [] then PStr d else PNone
                                    | _ \<Rightarrow> PNone)
                        in if accepted txt then Inr (txt, date) else Inr (None, PNone))))
       [HTMLFetchError, ValueError, OSError]
       (None, PNone)"

subsection \<open>The language-model stage\<close>

definition newline :: string where
  "newline = [CHR 0x0A]"

definition dquote :: string where
  "dquote = [CHR 0x22]"

definition prompt_head :: string where
  "prompt_head =
     ''Extract the main article text and publication date from this HTML content.'' @ newline
     @ ''Return a JSON object with two fields:'' @ newline
     @ ''- '' @ dquote @ ''text'' @ dquote
     @ '': The main article text (not HTML, just the readable text)'' @ newline
     @ ''- '' @ dquote @ ''date'' @ dquote
     @ '': The publication date in any format you can find (or null if not found)'' @ newline
     @ newline @ ''HTML content:'' @ newline"

definition prompt_tail :: string where
  "prompt_tail = newline @ newline @ ''Return only valid JSON, no additional text.''"

definition make_prompt :: "string \<Rightarrow> string" where
  "make_prompt html_content = prompt_head @ slice_to 50000 html_content @ prompt_tail"

text \<open>\<open>result.get(key, default)\<close>: only a dict has the method.\<close>

fun py_get :: "pyval \<Rightarrow> string \<Rightarrow> pyval \<Rightarrow> exn + pyval" where
  "py_get (PDict kvs) k dflt = Inr (case map_of kvs k of Some v \<Rightarrow> v | None \<Rightarrow> dflt)"
| "py_get v k dflt = Inl AttributeError"

text \<open>\<open>v.strip()\<close>: only a string has the method.\<close>

fun py_strip :: "pyval \<Rightarrow> exn + string" where
  "py_strip (PStr s) = Inr (strip s)"
| "py_strip v = Inl AttributeError"

text \<open>
  Lines 129 to 136: the answer is stripped, a leading fence tagged \<open>json\<close> is cut, then a
  leading fence, then a trailing fence (three independent \<open>if\<close>s), and the rest is
  stripped again.
\<close>

definition strip_fences :: "string \<Rightarrow> string" where
  "strip_fences response_text =
     (let r1 = strip response_text;
          r2 = (if startswith r1 fence_json then slice_from 7 r1 else r1);
          r3 = (if startswith r2 fence then slice_from 3 r2 else r2);
          r4 = (if endswith r3 fence then slice_drop_last 3 r3 else r3)
      in strip r4)"

text \<open>
  Lines 129 to 147: the parsing of the model's answer, from the raw completion to the
  stage's (text, date) pair.
\<close>

definition parse_response :: "env \<Rightarrow> string \<Rightarrow> exn + (string option \<times> pyval)" where
  "parse_response env response_text =
     (case json_loads env (strip_fences response_text) of
        Inl e \<Rightarrow> Inl e
      | Inr result \<Rightarrow>
          (case py_get result ''text'' (PStr []) of
             Inl e \<Rightarrow> Inl e
           | Inr tv \<Rightarrow>
               (case py_strip tv of
                  Inl e \<Rightarrow> Inl e
                | Inr txt \<Rightarrow>
                    (case py_get result ''date'' PNone of
                       Inl e \<Rightarrow> Inl e
                     | Inr date \<Rightarrow>
                         if accepted (Some txt) then Inr (Some txt, date)
                         else Inr (None, PNone)))))"

definition extract_with_gemini :: "env \<Rightarrow> string \<Rightarrow> exn + (string option \<times> pyval)" where
  "extract_with_gemini env u =
     try_except
       (case requests_get env u of
          Inl e \<Rightarrow> Inl e
        | Inr html_content \<Rightarrow>
            (case gemini_query env (make_prompt html_content) of
               Inl e \<Rightarrow> Inl e
             | Inr response_text \<Rightarrow> parse_response env response_text))
       [LLMExtractionError, RequestException, JSONDecodeError, KeyError]
       (None, PNone)"

section \<open>Date normalisation\<close>

definition normalize_date :: "env \<Rightarrow> pyval \<Rightarrow> exn + string option" where
  "normalize_date env date_str =
     (if \<not> truthy date_str then Inr None
      else
        try_except
          (case date_parse env date_str of
             Inl e \<Rightarrow> Inl e
           | Inr parsed_date \<Rightarrow> Inr (Some (date_isoformat (dt_date parsed_date))))
          [ValueError, TypeError]
          None)"

section \<open>The orchestrator\<close>

text \<open>
  The success branch shared by the three stages: normalise the date, then build the
  result.
\<close>

definition success_result ::
  "env \<Rightarrow> string \<Rightarrow> string \<Rightarrow> string option \<Rightarrow> pyval \<Rightarrow> string \<Rightarrow> exn + ExtractionResult" where
  "success_result env idv u txt date method =
     (case normalize_date env date of
        Inl e \<Rightarrow> Inl e
      | Inr normalized_date \<Rightarrow>
          Inr \<lparr>id_value = idv, url = u, extracted_text = txt,
               publication_date = normalized_date, extraction_method = Some method,
               status = ''success'', error_message = None\<rparr>)"

definition extract_from_url ::
  "env \<Rightarrow> pyval \<Rightarrow> string \<Rightarrow> world \<Rightarrow> (exn + ExtractionResult) \<times> world" where
  "extract_from_url env u idv w =
     (if \<not> truthy u \<or> \<not> isinstance_str u \<or> \<not> truthy (PStr (strip (str_val u)))
      then (create_error idv (py_or u (PStr [])) ''Empty or invalid URL'', w)
      else
        (let u1 = strip (str_val u);
             w1 = invoke Newspaper u1 w
         in (case extract_with_newspaper env u1 of
               Inl e \<Rightarrow> (Inl e, w1)
             | Inr (txt, date) \<Rightarrow>
                 if truthy (opt_str txt)
                 then (success_result env idv u1 txt date ''newspaper'', w1)
                 else
                   (let w2 = invoke Trafilatura u1 w1
                    in (case extract_with_trafilatura env u1 of
                          Inl e \<Rightarrow> (Inl e, w2)
                        | Inr (txt, date) \<Rightarrow>
                            if truthy (opt_str txt)
                            then (success_result env idv u1 txt date ''trafilatura'', w2)
                            else
                              (let w3 = invoke Gemini u1 w2
                               in (case extract_with_gemini env u1 of
                                     Inl e \<Rightarrow> (Inl e, w3)
                                   | Inr (txt, date) \<Rightarrow>
                                       if truthy (opt_str txt)
                                       then (success_result env idv u1 txt date ''gemini'', w3)
                                       else (create_error idv (PStr u1)
                                               ''All extraction methods failed'', w3))))))))"

section \<open>The batch processor\<close>

text \<open>\<open>row[col]\<close>: the cell of the row under the column label.\<close>

definition row_get :: "string list \<Rightarrow> pyval list \<Rightarrow> string \<Rightarrow> exn + pyval" where
  "row_get cols cells c =
     (case map_of (zip cols cells) c of None \<Rightarrow> Inl KeyError | Some v \<Rightarrow> Inr v)"

text \<open>\<open>str(v)\<close>.\<close>

definition py_str :: "env \<Rightarrow> pyval \<Rightarrow> string" where
  "py_str env v = (case v of PStr s \<Rightarrow> s | _ \<Rightarrow> py_repr env v)"

text \<open>The inner loop: the configured URL columns of one row, in order.\<close>

fun url_loop ::
  "env \<Rightarrow> string list \<Rightarrow> pyval list \<Rightarrow> string \<Rightarrow> string list \<Rightarrow> ExtractionResult list \<Rightarrow> world
   \<Rightarrow> (exn + ExtractionResult list) \<times> world" where
  "url_loop env cols cells idv [] results w = (Inr results, w)"
| "url_loop env cols cells idv (url_col # rest) results w =
     (case row_get cols cells url_col of
        Inl e \<Rightarrow> (Inl e, w)
      | Inr u \<Rightarrow>
          (case extract_from_url env u idv w of
             (Inl e, w') \<Rightarrow> (Inl e, w')
           | (Inr r, w') \<Rightarrow> url_loop env cols cells idv rest (results @ [r]) w'))"

text \<open>The outer loop: the rows of the table, in order.\<close>

fun row_loop ::
  "env \<Rightarrow> string list \<Rightarrow> Config \<Rightarrow> pyval list list \<Rightarrow> ExtractionResult list \<Rightarrow> world
   \<Rightarrow> (exn + ExtractionResult list) \<times> world" where
  "row_loop env cols config [] results w = (Inr results, w)"
| "row_loop env cols config (cells # rest) results w =
     (case row_get cols cells (id_column config) of
        Inl e \<Rightarrow> (Inl e, w)
      | Inr idc \<Rightarrow>
          (case url_loop env cols cells (py_str env idc) (url_columns config) results w of
             (Inl e, w') \<Rightarrow> (Inl e, w')
           | (Inr results', w') \<Rightarrow> row_loop env cols config rest results' w'))"

text \<open>One output row: the dict built from a result, in the output's column order.\<close>

definition to_row :: "ExtractionResult \<Rightarrow> (string \<times> pyval) list" where
  "to_row r =
     [(''id'', PStr (id_value r)),
      (''url'', PStr (url r)),
      (''extracted_text'', opt_str (extracted_text r)),
      (''publication_date'', opt_str (publication_date r)),
      (''extraction_method'', opt_str (extraction_method r)),
      (''status'', PStr (status r)),
      (''error_message'', opt_str (error_message r))]"

definition process_csv ::
  "env \<Rightarrow> string \<Rightarrow> string \<Rightarrow> Config \<Rightarrow> world \<Rightarrow> (exn + unit) \<times> world" where
  "process_csv env input_csv output_csv config w =
     (case read_csv env input_csv of
        Inl e \<Rightarrow> (Inl e, w)
      | Inr df \<Rightarrow>
          if id_column config \<notin> set (columns df) then (Inl ValueError, w)
          else if filter (\<lambda>col. col \<notin> set (columns df)) (url_columns config) \<noteq> []
          then (Inl ValueError, w)
          else
            (case row_loop env (columns df) config (rows df) [] w of
               (Inl e, w') \<Rightarrow> (Inl e, w')
             | (Inr results, w') \<Rightarrow>
                 (Inr (), w'\<lparr>files := (files w')(output_csv \<mapsto> map to_row results)\<rparr>)))"

section \<open>Notions used to state the properties\<close>

subsection \<open>JSON payloads\<close>

text \<open>
  A JSON payload is a text \<open>json.loads\<close> accepts. All the fence handling looks at is how
  the text begins and ends once stripped: a JSON value begins with a brace, a bracket, a
  double quote, a minus sign, a digit or the first letter of \<open>true\<close>, \<open>false\<close>, \<open>null\<close>,
  \<open>NaN\<close>, \<open>Infinity\<close>, and ends with a closing brace or bracket, a double quote, a digit
  or the last letter of one of those words.
\<close>

definition json_first :: "char \<Rightarrow> bool" where
  "json_first c = (c \<in> set (''{[-0123456789tfnNI'' @ dquote))"

definition json_last :: "char \<Rightarrow> bool" where
  "json_last c = (c \<in> set (''}]0123456789elNy'' @ dquote))"

definition json_text :: "string \<Rightarrow> bool" where
  "json_text p =
     (case strip p of [] \<Rightarrow> False | c # cs \<Rightarrow> json_first c \<and> json_last (last (c # cs)))"

subsection \<open>Canonical dates\<close>

text \<open>
  The canonical form of a date: four digits, a dash, two digits, a dash, two digits
  (year-month-day, zero-padded), and the date such a text spells.
\<close>

definition is_digit :: "char \<Rightarrow> bool" where
  "is_digit c = (c \<in> set ''0123456789'')"

definition digit_val :: "char \<Rightarrow> nat" where
  "digit_val c = of_char c - 48"

definition num_of :: "string \<Rightarrow> nat" where
  "num_of s = foldl (\<lambda>n c. 10 * n + digit_val c) 0 s"

definition canonical_date :: "string \<Rightarrow> bool" where
  "canonical_date s =
     (length s = 10 \<and> list_all is_digit (take 4 s) \<and> s ! 4 = CHR ''-''
      \<and> list_all is_digit (take 2 (drop 5 s)) \<and> s ! 7 = CHR ''-''
      \<and> list_all is_digit (drop 8 s))"

definition spelled_date :: "string \<Rightarrow> pydate" where
  "spelled_date s =
     \<lparr>year = num_of (take 4 s), month = num_of (take 2 (drop 5 s)), day = num_of (drop 8 s)\<rparr>"

subsection \<open>The stages by name\<close>

fun stage_fn :: "stage \<Rightarrow> env \<Rightarrow> string \<Rightarrow> exn + (string option \<times> pyval)" where
  "stage_fn Newspaper = extract_with_newspaper"
| "stage_fn Trafilatura = extract_with_trafilatura"
| "stage_fn Gemini = extract_with_gemini"

fun method_name :: "stage \<Rightarrow> string" where
  "method_name Newspaper = ''newspaper''"
| "method_name Trafilatura = ''trafilatura''"
| "method_name Gemini = ''gemini''"

text \<open>The stages the orchestrator tries before a given one, in its order.\<close>

fun stages_before :: "stage \<Rightarrow> stage list" where
  "stages_before Newspaper = []"
| "stages_before Trafilatura = [Newspaper]"
| "stages_before Gemini = [Newspaper, Trafilatura]"

subsection \<open>Sample inputs\<close>

text \<open>
  An environment in which nothing is found: newspaper parses an empty article,
  trafilatura cannot fetch, and the HTTP request, the model, the JSON parser, the date
  parser and the table reader all fail. The examples below override single collaborators
  of it.
\<close>

definition quiet_env :: env where
  "quiet_env =
     \<lparr>newspaper_article = (\<lambda>u. Inr ([], None)),
      fetch_url = (\<lambda>u. Inr None),
      trafilatura_extract = (\<lambda>h. Inr None),
      extract_metadata = (\<lambda>h. Inr None),
      requests_get = (\<lambda>u. Inl RequestException),
      gemini_query = (\<lambda>p. Inl LLMExtractionError),
      json_loads = (\<lambda>s. Inl JSONDecodeError),
      date_parse = (\<lambda>v. Inl ParserError),
      py_repr = (\<lambda>v. []),
      read_csv = (\<lambda>p. Inl OSError)\<rparr>"

definition empty_world :: world where
  "empty_world = \<lparr>calls = [], files = (\<lambda>p. None)\<rparr>"

text \<open>An article body of 118 characters.\<close>

definition sample_article :: string where
  "sample_article =
     ''The council voted on Tuesday to extend the tram line to the harbour, ending a debate that had lasted nearly ten years.''"

definition sample_datetime :: datetime where
  "sample_datetime = \<lparr>dt_date = \<lparr>year = 2024, month = 1, day = 15\<rparr>, dt_time = ''10:30:00''\<rparr>"

definition sample_url :: string where
  "sample_url = ''https://example.com/news/tram''"

text \<open>The model's answer as JSON text, and the value \<open>json.loads\<close> gives for it.\<close>

definition sample_json :: string where
  "sample_json =
     ''{'' @ dquote @ ''text'' @ dquote @ '': '' @ dquote @ sample_article @ dquote @ '', ''
     @ dquote @ ''date'' @ dquote @ '': '' @ dquote @ ''15 January 2024'' @ dquote @ ''}''"

definition sample_dict :: pyval where
  "sample_dict = PDict [(''text'', PStr sample_article), (''date'', PStr ''15 January 2024'')]"

definition sample_loads :: "string \<Rightarrow> exn + pyval" where
  "sample_loads s = (if s = sample_json then Inr sample_dict else Inl JSONDecodeError)"

subsection \<open>Tables and their (row, column) pairs\<close>

text \<open>
  A table is well formed when every row has one cell per column, as a table read by
  pandas has. \<open>pair_result\<close> is what the orchestrator returns for one (row, URL column)
  pair: the identifier is the text of the row's identifier cell, the URL the cell under
  the URL column.
\<close>

definition well_formed :: "dataframe \<Rightarrow> bool" where
  "well_formed df = list_all (\<lambda>cells. length cells = length (columns df)) (rows df)"

definition pair_result ::
  "env \<Rightarrow> dataframe \<Rightarrow> Config \<Rightarrow> pyval list \<times> string \<Rightarrow> exn + ExtractionResult" where
  "pair_result env df config pair =
     (case row_get (columns df) (fst pair) (id_column config) of
        Inl e \<Rightarrow> Inl e
      | Inr idc \<Rightarrow>
          (case row_get (columns df) (fst pair) (snd pair) of
             Inl e \<Rightarrow> Inl e
           | Inr u \<Rightarrow> fst (extract_from_url env u (py_str env idc) empty_world)))"

section \<open>Lemmas about strings\<close>

lemma not_space_backtick: "\<not> is_space (CHR 0x60)"
  by (simp add: is_space_def)

lemma json_first_facts: "json_first c \<Longrightarrow> c \<noteq> CHR 0x60 \<and> c \<noteq> CHR ''j'' \<and> \<not> is_space c"
  by (auto simp: json_first_def dquote_def is_space_def)

lemma json_last_facts: "json_last c \<Longrightarrow> c \<noteq> CHR 0x60 \<and> \<not> is_space c"
  by (auto simp: json_last_def dquote_def is_space_def)

lemma space_facts: "is_space c \<Longrightarrow> c \<noteq> CHR 0x60 \<and> c \<noteq> CHR ''j''"
  by (auto simp: is_space_def)

lemma lstrip_spaces: "list_all is_space a \<Longrightarrow> lstrip (a @ s) = lstrip s"
  by (simp add: lstrip_def dropWhile_append2 list_all_iff)

lemma rstrip_spaces: "list_all is_space b \<Longrightarrow> rstrip (s @ b) = rstrip s"
proof -
  assume "list_all is_space b"
  then have "dropWhile is_space (rev b @ rev s) = dropWhile is_space (rev s)"
    by (intro dropWhile_append2) (simp add: list_all_iff)
  then show ?thesis by (simp add: rstrip_def)
qed

lemma lstrip_core: "s \<noteq> [] \<Longrightarrow> \<not> is_space (hd s) \<Longrightarrow> lstrip s = s"
  by (cases s) (simp_all add: lstrip_def)

lemma rstrip_core: "s \<noteq> [] \<Longrightarrow> \<not> is_space (last s) \<Longrightarrow> rstrip s = s"
  by (cases s rule: rev_cases) (simp_all add: rstrip_def)

lemma strip_around:
  assumes "list_all is_space a" "list_all is_space b" "s \<noteq> []" "\<not> is_space (hd s)" "\<not> is_space (last s)"
  shows "strip (a @ s @ b) = s"
proof -
  have "lstrip (a @ s @ b) = s @ b"
    using assms by (simp add: lstrip_spaces lstrip_core)
  then show ?thesis
    using assms by (simp add: strip_def rstrip_spaces rstrip_core)
qed

lemma strip_decompose:
  "\<exists>a b. s = a @ strip s @ b \<and> list_all is_space a \<and> list_all is_space b"
proof -
  let ?a = "takeWhile is_space s"
  let ?m = "dropWhile is_space s"
  let ?b = "rev (takeWhile is_space (rev ?m))"
  have 1: "s = ?a @ ?m" by simp
  have 2: "?m = strip s @ ?b"
  proof -
    have "rev ?m = takeWhile is_space (rev ?m) @ dropWhile is_space (rev ?m)" by simp
    then have "?m = rev (dropWhile is_space (rev ?m)) @ ?b"
      by (metis rev_append rev_rev_ident)
    then show ?thesis by (simp add: strip_def rstrip_def lstrip_def)
  qed
  have 3: "list_all is_space ?a" unfolding list_all_iff by (blast dest: set_takeWhileD)
  have 4: "list_all is_space ?b" unfolding list_all_iff set_rev by (blast dest: set_takeWhileD)
  from 1 2 have "s = ?a @ strip s @ ?b" by simp
  with 3 4 show ?thesis by blast
qed

lemma last_dropWhile:
  "xs \<noteq> [] \<Longrightarrow> \<not> P (last xs) \<Longrightarrow> dropWhile P xs \<noteq> [] \<and> last (dropWhile P xs) = last xs"
  by (induction xs) (auto split: if_splits)

lemma strip_ends:
  assumes "strip s \<noteq> []"
  shows "\<not> is_space (hd (strip s)) \<and> \<not> is_space (last (strip s))"
proof -
  let ?m = "dropWhile is_space s"
  let ?r = "dropWhile is_space (rev ?m)"
  have eq: "strip s = rev ?r" by (simp add: strip_def rstrip_def lstrip_def)
  have m: "?m \<noteq> []"
  proof
    assume "?m = []"
    then have "?r = []" by (simp only: rev.simps dropWhile.simps)
    with assms eq show False by simp
  qed
  have hm: "\<not> is_space (hd ?m)" using m by (simp add: hd_dropWhile)
  have r: "?r \<noteq> []" using assms eq by simp
  have "\<not> is_space (hd ?r)" using r by (simp add: hd_dropWhile)
  then have l: "\<not> is_space (last (strip s))" using r eq by (simp add: last_rev)
  have "\<not> is_space (last (rev ?m))" using m hm by (simp add: last_rev)
  then have "last ?r = last (rev ?m)" using m last_dropWhile [of "rev ?m" is_space] by simp
  then have "hd (strip s) = hd ?m" using r m eq by (simp add: hd_rev last_rev)
  with hm l show ?thesis by simp
qed

lemma fence_json_eq: "fence_json = fence @ ''json''"
  by (simp add: fence_json_def)

lemma cut_lead:
  assumes "t \<noteq> []" "hd t \<noteq> CHR 0x60" "hd t \<noteq> CHR ''j''" "lead \<in> {[], fence, fence_json}"
  shows "(let r1 = lead @ t;
              r2 = (if startswith r1 fence_json then slice_from 7 r1 else r1)
          in if startswith r2 fence then slice_from 3 r2 else r2) = t"
proof -
  obtain c cs where t: "t = c # cs" using assms(1) by (cases t) auto
  have c: "c \<noteq> CHR 0x60" "c \<noteq> CHR ''j''" using assms t by auto
  consider "lead = []" | "lead = fence" | "lead = fence_json" using assms(4) by auto
  then show ?thesis
  proof cases
    case 1
    then show ?thesis using t c
      by (simp add: startswith_def fence_json_def fence_def slice_from_def)
  next
    case 2
    then show ?thesis using t c
      by (simp add: startswith_def fence_json_def fence_def slice_from_def)
  next
    case 3
    then show ?thesis using t c
      by (simp add: startswith_def fence_json_def fence_def slice_from_def)
  qed
qed

lemma cut_trail:
  assumes "t \<noteq> []" "last t \<noteq> CHR 0x60" "trail \<in> {[], fence}"
  shows "(if endswith (t @ trail) fence then slice_drop_last 3 (t @ trail) else t @ trail) = t"
proof -
  consider "trail = []" | "trail = fence" using assms(3) by auto
  then show ?thesis
  proof cases
    case 1
    have "\<not> suffix fence t"
    proof
      assume "suffix fence t"
      then obtain zs where "t = zs @ fence" by (auto simp: suffix_def)
      then have "last t = CHR 0x60" by (simp add: fence_def)
      with assms(2) show False by simp
    qed
    with 1 show ?thesis by (simp add: endswith_def)
  next
    case 2
    have "suffix fence (t @ fence)" by (rule suffixI) simp
    moreover have "take (length (t @ fence) - 3) (t @ fence) = t" by (simp add: fence_def)
    ultimately show ?thesis using 2 by (simp add: endswith_def slice_drop_last_def)
  qed
qed

lemma strip_fences_wrapped:
  assumes q: "q \<noteq> []" "json_first (hd q)" "json_last (last q)"
    and lead: "lead \<in> {[], fence, fence_json}" and trail: "trail \<in> {[], fence}"
    and ws: "list_all is_space w1" "list_all is_space a" "list_all is_space b" "list_all is_space w4"
  shows "strip_fences (w1 @ lead @ a @ q @ b @ trail @ w4) = q"
proof -
  let ?X = "w1 @ lead @ a @ q @ b @ trail @ w4"
  have hq: "hd q \<noteq> CHR 0x60" "hd q \<noteq> CHR ''j''" "\<not> is_space (hd q)"
    using q(2) json_first_facts by auto
  have lq: "last q \<noteq> CHR 0x60" "\<not> is_space (last q)"
    using q(3) json_last_facts by auto
  define a' where "a' = (if lead = [] then [] else a)"
  define b' where "b' = (if trail = [] then [] else b)"
  define t where "t = a' @ q @ b'"
  have sp: "list_all is_space a'" "list_all is_space b'"
    using ws by (simp_all add: a'_def b'_def)
  have t_ne: "t \<noteq> []" using q(1) by (simp add: t_def)
  have hd_t: "hd t \<noteq> CHR 0x60 \<and> hd t \<noteq> CHR ''j''"
  proof (cases a')
    case Nil
    then show ?thesis using q(1) hq by (simp add: t_def)
  next
    case (Cons c cs)
    then have "is_space c" using sp(1) by simp
    then show ?thesis using Cons space_facts by (simp add: t_def)
  qed
  have last_t: "last t \<noteq> CHR 0x60"
  proof (cases b' rule: rev_cases)
    case Nil
    then show ?thesis using q(1) lq by (simp add: t_def)
  next
    case (snoc cs c)
    then have "is_space c" using sp(2) by simp
    then show ?thesis using snoc space_facts by (simp add: t_def)
  qed
  have lead_hd: "lead \<noteq> [] \<Longrightarrow> hd lead = CHR 0x60"
    using lead by (auto simp: fence_def fence_json_def)
  have trail_last: "trail \<noteq> [] \<Longrightarrow> last trail = CHR 0x60"
    using trail by (auto simp: fence_def)
  have core: "strip ?X = lead @ t @ trail"
  proof -
    let ?s = "lead @ t @ trail"
    have ne: "?s \<noteq> []" using t_ne by simp
    have h: "\<not> is_space (hd ?s)"
    proof (cases "lead = []")
      case True
      then show ?thesis using q(1) hq by (simp add: t_def a'_def)
    next
      case False
      then show ?thesis using lead_hd not_space_backtick by simp
    qed
    have l: "\<not> is_space (last ?s)"
    proof (cases "trail = []")
      case True
      then show ?thesis using q(1) lq by (simp add: t_def b'_def)
    next
      case False
      then show ?thesis using trail_last not_space_backtick by simp
    qed
    have "\<exists>x y. ?X = x @ ?s @ y \<and> list_all is_space x \<and> list_all is_space y"
    proof (cases "lead = []"; cases "trail = []")
      show "lead = [] \<Longrightarrow> trail = [] \<Longrightarrow> ?thesis"
        using ws by (intro exI [of _ "w1 @ a"] exI [of _ "b @ w4"]) (simp add: t_def a'_def b'_def)
      show "lead = [] \<Longrightarrow> trail \<noteq> [] \<Longrightarrow> ?thesis"
        using ws by (intro exI [of _ "w1 @ a"] exI [of _ "w4"]) (simp add: t_def a'_def b'_def)
      show "lead \<noteq> [] \<Longrightarrow> trail = [] \<Longrightarrow> ?thesis"
        using ws by (intro exI [of _ "w1"] exI [of _ "b @ w4"]) (simp add: t_def a'_def b'_def)
      show "lead \<noteq> [] \<Longrightarrow> trail \<noteq> [] \<Longrightarrow> ?thesis"
        using ws by (intro exI [of _ "w1"] exI [of _ "w4"]) (simp add: t_def a'_def b'_def)
    qed
    then obtain x y where "?X = x @ ?s @ y" "list_all is_space x" "list_all is_space y" by blast
    then show ?thesis using strip_around [of x y ?s] ne h l by simp
  qed
  have tt: "t @ trail \<noteq> []" "hd (t @ trail) \<noteq> CHR 0x60" "hd (t @ trail) \<noteq> CHR ''j''"
    using t_ne hd_t by simp_all
  have r3: "(let r1 = lead @ t @ trail;
                 r2 = (if startswith r1 fence_json then slice_from 7 r1 else r1)
             in if startswith r2 fence then slice_from 3 r2 else r2) = t @ trail"
    using cut_lead [OF tt lead] .
  have r4: "(if endswith (t @ trail) fence then slice_drop_last 3 (t @ trail) else t @ trail) = t"
    using cut_trail [OF t_ne last_t trail] .
  have fin: "strip t = q"
    using strip_around [of a' b' q] sp q(1) hq(3) lq(2) by (simp add: t_def)
  have "strip_fences ?X =
          strip (if endswith (t @ trail) fence then slice_drop_last 3 (t @ trail) else t @ trail)"
    unfolding strip_fences_def core by (simp only: Let_def r3 [unfolded Let_def])
  then show ?thesis by (simp only: r4 fin)
qed

lemma json_text_core:
  assumes "json_text p"
  shows "\<exists>a b. p = a @ strip p @ b \<and> list_all is_space a \<and> list_all is_space b
           \<and> strip p \<noteq> [] \<and> json_first (hd (strip p)) \<and> json_last (last (strip p))"
proof -
  obtain a b where "p = a @ strip p @ b" "list_all is_space a" "list_all is_space b"
    using strip_decompose by blast
  moreover have "strip p \<noteq> [] \<and> json_first (hd (strip p)) \<and> json_last (last (strip p))"
    using assms by (cases "strip p") (simp_all add: json_text_def)
  ultimately show ?thesis by blast
qed

lemma strip_fences_bare: "json_text p \<Longrightarrow> strip_fences p = strip p"
proof -
  assume "json_text p"
  then obtain a b where ab: "p = a @ strip p @ b" "list_all is_space a" "list_all is_space b"
    and q: "strip p \<noteq> []" "json_first (hd (strip p))" "json_last (last (strip p))"
    using json_text_core by blast
  have "strip_fences ([] @ [] @ a @ strip p @ b @ [] @ []) = strip p"
    by (rule strip_fences_wrapped [OF q _ _ _ ab(2,3)]) simp_all
  then show ?thesis using ab(1) by simp
qed

lemma strip_fences_fenced:
  assumes "json_text p" "lead \<in> {[], fence, fence_json}" "trail \<in> {[], fence}"
    and "list_all is_space w1" "list_all is_space w2" "list_all is_space w3" "list_all is_space w4"
  shows "strip_fences (w1 @ lead @ w2 @ p @ w3 @ trail @ w4) = strip p"
proof -
  define q where "q = strip p"
  obtain a b where ab: "p = a @ q @ b" "list_all is_space a" "list_all is_space b"
    and q: "q \<noteq> []" "json_first (hd q)" "json_last (last q)"
    using json_text_core [OF assms(1)] unfolding q_def by blast
  have main: "strip_fences (w1 @ lead @ (w2 @ a) @ q @ (b @ w3) @ trail @ w4) = q"
    using assms ab by (intro strip_fences_wrapped [OF q]) simp_all
  have "w1 @ lead @ w2 @ p @ w3 @ trail @ w4
          = w1 @ lead @ (w2 @ a) @ q @ (b @ w3) @ trail @ w4"
    by (simp add: ab(1))
  then have "strip_fences (w1 @ lead @ w2 @ p @ w3 @ trail @ w4) = q"
    by (simp only: main)
  then show ?thesis by (simp only: q_def)
qed

section \<open>Lemmas about date formatting\<close>

lemma digit_char_val: "is_digit c \<Longrightarrow> ''0123456789'' ! digit_val c = c \<and> digit_val c < 10"
  by (auto simp: is_digit_def digit_val_def)

lemma dec_digit: "n < 10 \<Longrightarrow> dec n = [''0123456789'' ! n]"
  by (simp add: dec.simps)

lemma dec_two: "10 \<le> n \<Longrightarrow> n < 100 \<Longrightarrow> dec n = [''0123456789'' ! (n div 10), ''0123456789'' ! (n mod 10)]"
  by (subst dec.simps) (simp add: dec_digit)

lemma dec_three: "100 \<le> n \<Longrightarrow> n < 1000 \<Longrightarrow>
   dec n = [''0123456789'' ! (n div 100), ''0123456789'' ! (n div 10 mod 10), ''0123456789'' ! (n mod 10)]"
  by (subst dec.simps) (simp add: dec_two div_mult2_eq [symmetric])

lemma dec_four: "1000 \<le> n \<Longrightarrow> n < 10000 \<Longrightarrow>
   dec n = [''0123456789'' ! (n div 1000), ''0123456789'' ! (n div 100 mod 10),
            ''0123456789'' ! (n div 10 mod 10), ''0123456789'' ! (n mod 10)]"
  by (subst dec.simps) (simp add: dec_three div_mult2_eq [symmetric])

lemma zpad2:
  assumes "a < 10" "b < 10"
  shows "zpad 2 (10 * a + b) = [''0123456789'' ! a, ''0123456789'' ! b]"
proof (cases "a = 0")
  case True
  then show ?thesis using assms by (simp add: zpad_def dec_digit)
next
  case False
  then have "10 \<le> 10 * a + b" "10 * a + b < 100" using assms by auto
  then have "dec (10 * a + b) = [''0123456789'' ! ((10 * a + b) div 10), ''0123456789'' ! ((10 * a + b) mod 10)]"
    by (rule dec_two)
  then show ?thesis using assms by (simp add: zpad_def)
qed

lemma replicate_small:
  "replicate 3 x = [x, x, x]" "replicate 2 x = [x, x]" "replicate (Suc 0) x = [x]"
  by (simp_all add: numeral_3_eq_3 numeral_2_eq_2)

lemma zpad4:
  assumes "n < 10000"
  shows "zpad 4 n = [''0123456789'' ! (n div 1000), ''0123456789'' ! (n div 100 mod 10),
                     ''0123456789'' ! (n div 10 mod 10), ''0123456789'' ! (n mod 10)]"
proof -
  consider "n < 10" | "10 \<le> n" "n < 100" | "100 \<le> n" "n < 1000" | "1000 \<le> n"
    by linarith
  then show ?thesis
  proof cases
    case 1
    then show ?thesis by (simp add: zpad_def dec_digit replicate_small)
  next
    case 2
    then show ?thesis by (simp add: zpad_def dec_two replicate_small)
  next
    case 3
    then show ?thesis by (simp add: zpad_def dec_three replicate_small)
  next
    case 4
    then show ?thesis using assms by (simp add: zpad_def dec_four)
  qed
qed

lemma div10_step: "(d::nat) < 10 \<Longrightarrow> (10 * m + d) div 10 = m"
  by simp

lemma mod10_step: "(d::nat) < 10 \<Longrightarrow> (10 * m + d) mod 10 = d"
  by simp

lemma zpad4_digits:
  assumes "a < 10" "b < 10" "c < 10" "d < 10"
  shows "zpad 4 (10 * (10 * (10 * a + b) + c) + d) =
           [''0123456789'' ! a, ''0123456789'' ! b, ''0123456789'' ! c, ''0123456789'' ! d]"
proof -
  define n where "n = 10 * (10 * (10 * a + b) + c) + d"
  have d1: "n div 10 = 10 * (10 * a + b) + c" using assms(4) by (simp only: n_def div10_step)
  have "n div 100 = n div 10 div 10" by (simp add: div_mult2_eq [symmetric])
  then have d2: "n div 100 = 10 * a + b" using assms(3) by (simp only: d1 div10_step)
  have "n div 1000 = n div 100 div 10" by (simp add: div_mult2_eq [symmetric])
  then have d3: "n div 1000 = a" using assms(2) by (simp only: d2 div10_step)
  have m2: "n div 100 mod 10 = b" using assms(2) by (simp only: d2 mod10_step)
  have m1: "n div 10 mod 10 = c" using assms(3) by (simp only: d1 mod10_step)
  have m0: "n mod 10 = d" using assms(4) by (simp only: n_def mod10_step)
  have "n div 1000 < 10" using assms(1) d3 by simp
  then have "n < 10000" by simp
  then have "zpad 4 n = [''0123456789'' ! (n div 1000), ''0123456789'' ! (n div 100 mod 10),
                         ''0123456789'' ! (n div 10 mod 10), ''0123456789'' ! (n mod 10)]"
    by (rule zpad4)
  then show ?thesis by (simp only: d3 m2 m1 m0) (simp only: n_def)
qed

lemma canonical_date_elems:
  assumes "canonical_date s"
  shows "\<exists>a b c d e f g h. s = [a, b, c, d, CHR ''-'', e, f, CHR ''-'', g, h]
           \<and> is_digit a \<and> is_digit b \<and> is_digit c \<and> is_digit d
           \<and> is_digit e \<and> is_digit f \<and> is_digit g \<and> is_digit h"
proof -
  from assms have len: "length s = 10" by (simp add: canonical_date_def)
  then obtain a b c d x e f y g h where s: "s = [a, b, c, d, x, e, f, y, g, h]"
    by (auto simp: length_Suc_conv eval_nat_numeral)
  with assms show ?thesis by (simp add: canonical_date_def eval_nat_numeral)
qed

lemma isoformat_spelled: "canonical_date s \<Longrightarrow> date_isoformat (spelled_date s) = s"
proof -
  assume "canonical_date s"
  then obtain a b c d e f g h where s: "s = [a, b, c, d, CHR ''-'', e, f, CHR ''-'', g, h]"
    and dg: "is_digit a" "is_digit b" "is_digit c" "is_digit d"
            "is_digit e" "is_digit f" "is_digit g" "is_digit h"
    using canonical_date_elems by blast
  have y: "zpad 4 (num_of [a, b, c, d]) = [a, b, c, d]"
    using dg zpad4_digits [of "digit_val a" "digit_val b" "digit_val c" "digit_val d"]
    by (simp add: num_of_def digit_char_val)
  have m: "zpad 2 (num_of [e, f]) = [e, f]"
    using dg zpad2 [of "digit_val e" "digit_val f"] by (simp add: num_of_def digit_char_val)
  have d: "zpad 2 (num_of [g, h]) = [g, h]"
    using dg zpad2 [of "digit_val g" "digit_val h"] by (simp add: num_of_def digit_char_val)
  show ?thesis
    unfolding date_isoformat_def spelled_date_def s using y m d by simp
qed

lemma canonical_date_nonempty: "canonical_date s \<Longrightarrow> s \<noteq> []"
  by (auto simp: canonical_date_def)

section \<open>Lemmas about the stages and the orchestrator\<close>

lemma accepted_Some: "accepted (Some s) = (100 < length s)"
  by (auto simp: accepted_def)

lemma accepted_truthy: "accepted tx \<Longrightarrow> truthy (opt_str tx)"
  by (cases tx) (auto simp: accepted_def)

lemma try_except_Inr:
  "try_except body classes handler = Inr v \<Longrightarrow>
     body = Inr v \<or> (v = handler \<and> (\<exists>e. body = Inl e \<and> caught classes e))"
  by (auto simp: try_except_def split: sum.splits if_splits)

lemma newspaper_returns:
  "extract_with_newspaper env u = Inr (tx, d) \<Longrightarrow> accepted tx \<or> (tx = None \<and> d = PNone)"
  unfolding extract_with_newspaper_def
  by (drule try_except_Inr) (auto simp: Let_def split: sum.splits prod.splits if_splits)

lemma trafilatura_returns:
  "extract_with_trafilatura env u = Inr (tx, d) \<Longrightarrow> accepted tx \<or> (tx = None \<and> d = PNone)"
  unfolding extract_with_trafilatura_def
  by (drule try_except_Inr) (auto simp: Let_def split: sum.splits prod.splits if_splits)

lemma parse_response_returns:
  "parse_response env s = Inr (tx, d) \<Longrightarrow> accepted tx \<or> (tx = None \<and> d = PNone)"
  unfolding parse_response_def
  by (auto split: sum.splits if_splits)

lemma gemini_returns:
  "extract_with_gemini env u = Inr (tx, d) \<Longrightarrow> accepted tx \<or> (tx = None \<and> d = PNone)"
  unfolding extract_with_gemini_def
  by (drule try_except_Inr) (auto split: sum.splits dest: parse_response_returns)

lemma success_result_Inr:
  "success_result env idv u tx d m = Inr r \<Longrightarrow>
     \<exists>nd. normalize_date env d = Inr nd \<and>
       r = \<lparr>id_value = idv, url = u, extracted_text = tx, publication_date = nd,
            extraction_method = Some m, status = ''success'', error_message = None\<rparr>"
  by (auto simp: success_result_def split: sum.splits)

lemma extract_from_url_invalid:
  "\<not> truthy u \<or> \<not> isinstance_str u \<or> strip (str_val u) = [] \<Longrightarrow>
     extract_from_url env u idv w = (Inl AttributeError, w)"
  by (auto simp: extract_from_url_def create_error_def)

lemma newspaper_truthy:
  "extract_with_newspaper env u = Inr (tx, d) \<Longrightarrow> truthy (opt_str tx) \<Longrightarrow> accepted tx"
  by (drule newspaper_returns) auto

lemma trafilatura_truthy:
  "extract_with_trafilatura env u = Inr (tx, d) \<Longrightarrow> truthy (opt_str tx) \<Longrightarrow> accepted tx"
  by (drule trafilatura_returns) auto

lemma gemini_truthy:
  "extract_with_gemini env u = Inr (tx, d) \<Longrightarrow> truthy (opt_str tx) \<Longrightarrow> accepted tx"
  by (drule gemini_returns) auto

lemma extract_from_url_Inr:
  assumes "extract_from_url env u idv w = (Inr r, w')"
  shows "\<exists>tx d m. accepted tx \<and> success_result env idv (strip (str_val u)) tx d m = Inr r
           \<and> m \<in> {''newspaper'', ''trafilatura'', ''gemini''}"
  using assms unfolding extract_from_url_def Let_def create_error_def
  by (auto split: if_splits sum.splits prod.splits)
     (blast dest: newspaper_truthy trafilatura_truthy gemini_truthy)+

lemma success_result_ok:
  "normalize_date env d = Inr nd \<Longrightarrow>
     success_result env idv u tx d m =
       Inr \<lparr>id_value = idv, url = u, extracted_text = tx, publication_date = nd,
            extraction_method = Some m, status = ''success'', error_message = None\<rparr>"
  by (simp add: success_result_def)

lemma success_result_raises:
  "normalize_date env d = Inl e \<Longrightarrow> success_result env idv u tx d m = Inl e"
  by (simp add: success_result_def)

lemma extract_from_url_newspaper:
  assumes "truthy u" "isinstance_str u" "strip (str_val u) \<noteq> []"
    and "extract_with_newspaper env (strip (str_val u)) = Inr (Some t, d)"
  shows "extract_from_url env u idv w =
           (success_result env idv (strip (str_val u)) (Some t) d ''newspaper'',
            invoke Newspaper (strip (str_val u)) w)"
proof -
  have "truthy (opt_str (Some t))"
    using newspaper_returns [OF assms(4)] by (auto simp: accepted_def)
  then show ?thesis using assms by (simp add: extract_from_url_def Let_def)
qed

lemma extract_from_url_trafilatura:
  assumes "truthy u" "isinstance_str u" "strip (str_val u) \<noteq> []"
    and "extract_with_newspaper env (strip (str_val u)) = Inr (None, d0)"
    and "extract_with_trafilatura env (strip (str_val u)) = Inr (Some t, d)"
  shows "extract_from_url env u idv w =
           (success_result env idv (strip (str_val u)) (Some t) d ''trafilatura'',
            invoke Trafilatura (strip (str_val u)) (invoke Newspaper (strip (str_val u)) w))"
proof -
  have "truthy (opt_str (Some t))"
    using trafilatura_returns [OF assms(5)] by (auto simp: accepted_def)
  then show ?thesis using assms by (simp add: extract_from_url_def Let_def)
qed

lemma extract_from_url_gemini:
  assumes "truthy u" "isinstance_str u" "strip (str_val u) \<noteq> []"
    and "extract_with_newspaper env (strip (str_val u)) = Inr (None, d0)"
    and "extract_with_trafilatura env (strip (str_val u)) = Inr (None, d1)"
    and "extract_with_gemini env (strip (str_val u)) = Inr (Some t, d)"
  shows "extract_from_url env u idv w =
           (success_result env idv (strip (str_val u)) (Some t) d ''gemini'',
            invoke Gemini (strip (str_val u))
              (invoke Trafilatura (strip (str_val u)) (invoke Newspaper (strip (str_val u)) w)))"
proof -
  have "truthy (opt_str (Some t))"
    using gemini_returns [OF assms(6)] by (auto simp: accepted_def)
  then show ?thesis using assms by (simp add: extract_from_url_def Let_def)
qed

lemma extract_from_url_nothing_found:
  assumes "truthy u" "isinstance_str u" "strip (str_val u) \<noteq> []"
    and "extract_with_newspaper env (strip (str_val u)) = Inr (None, d0)"
    and "extract_with_trafilatura env (strip (str_val u)) = Inr (None, d1)"
    and "extract_with_gemini env (strip (str_val u)) = Inr (None, d2)"
  shows "extract_from_url env u idv w =
           (Inl AttributeError,
            invoke Gemini (strip (str_val u))
              (invoke Trafilatura (strip (str_val u)) (invoke Newspaper (strip (str_val u)) w)))"
  using assms by (simp add: extract_from_url_def Let_def create_error_def)

lemma extract_from_url_gemini_raises:
  assumes "truthy u" "isinstance_str u" "strip (str_val u) \<noteq> []"
    and "extract_with_newspaper env (strip (str_val u)) = Inr (None, d0)"
    and "extract_with_trafilatura env (strip (str_val u)) = Inr (None, d1)"
    and "extract_with_gemini env (strip (str_val u)) = Inl e"
  shows "extract_from_url env u idv w =
           (Inl e,
            invoke Gemini (strip (str_val u))
              (invoke Trafilatura (strip (str_val u)) (invoke Newspaper (strip (str_val u)) w)))"
  using assms by (simp add: extract_from_url_def Let_def)

lemma extract_from_url_newspaper_raises:
  assumes "truthy u" "isinstance_str u" "strip (str_val u) \<noteq> []"
    and "extract_with_newspaper env (strip (str_val u)) = Inl e"
  shows "extract_from_url env u idv w = (Inl e, invoke Newspaper (strip (str_val u)) w)"
  using assms by (simp add: extract_from_url_def Let_def)

section \<open>Lemmas about the batch processor\<close>

lemma extract_from_url_world:
  "fst (extract_from_url env u idv w) = fst (extract_from_url env u idv w0)
   \<and> files (snd (extract_from_url env u idv w)) = files w"
  unfolding extract_from_url_def Let_def
  by (auto simp: invoke_def split: sum.splits prod.splits)

lemma extract_from_url_result:
  assumes "fst (extract_from_url env u idv empty_world) = Inr r"
  shows "\<exists>w'. extract_from_url env u idv w = (Inr r, w') \<and> files w' = files w"
proof -
  have "fst (extract_from_url env u idv w) = Inr r"
    using assms extract_from_url_world [of env u idv w empty_world] by simp
  moreover have "files (snd (extract_from_url env u idv w)) = files w"
    using extract_from_url_world [of env u idv w empty_world] by simp
  ultimately show ?thesis by (cases "extract_from_url env u idv w") auto
qed

lemma row_get_present:
  assumes "length cells = length cols" "c \<in> set cols"
  shows "\<exists>v. row_get cols cells c = Inr v"
proof -
  have "c \<in> fst ` set (zip cols cells)" using assms by (simp add: map_fst_zip flip: set_map)
  then have "map_of (zip cols cells) c \<noteq> None" by (simp add: map_of_eq_None_iff)
  then show ?thesis by (auto simp: row_get_def)
qed

lemma url_loop_returns:
  assumes "row_get (columns df) cells (id_column config) = Inr idc"
    and "map (\<lambda>c. pair_result env df config (cells, c)) cs = map Inr rs"
  shows "\<exists>w'. url_loop env (columns df) cells (py_str env idc) cs acc w = (Inr (acc @ rs), w')
               \<and> files w' = files w"
  using assms(2)
proof (induction cs arbitrary: acc w rs)
  case Nil
  then show ?case by simp
next
  case (Cons c cs)
  then obtain r rs' where rs: "rs = r # rs'"
    and r: "pair_result env df config (cells, c) = Inr r"
    and rest: "map (\<lambda>c. pair_result env df config (cells, c)) cs = map Inr rs'"
    by (cases rs) auto
  from r assms(1) obtain u where u: "row_get (columns df) cells c = Inr u"
    and e: "fst (extract_from_url env u (py_str env idc) empty_world) = Inr r"
    by (auto simp: pair_result_def split: sum.splits)
  obtain w1 where w1: "extract_from_url env u (py_str env idc) w = (Inr r, w1)" "files w1 = files w"
    using extract_from_url_result [OF e] by blast
  obtain w' where "url_loop env (columns df) cells (py_str env idc) cs (acc @ [r]) w1
                    = (Inr ((acc @ [r]) @ rs'), w')" "files w' = files w1"
    using Cons.IH [OF rest] by blast
  then show ?case using u w1 rs by simp
qed

lemma row_loop_returns:
  assumes "id_column config \<in> set (columns df)"
    and "list_all (\<lambda>cells. length cells = length (columns df)) rws"
    and "map (pair_result env df config) (List.product rws (url_columns config)) = map Inr rs"
  shows "\<exists>w'. row_loop env (columns df) config rws acc w = (Inr (acc @ rs), w')
               \<and> files w' = files w"
  using assms(2,3)
proof (induction rws arbitrary: acc w rs)
  case Nil
  then show ?case by simp
next
  case (Cons cells rws)
  let ?cs = "url_columns config"
  from Cons.prems(2) have
    "map (pair_result env df config) (map (Pair cells) ?cs)
       @ map (pair_result env df config) (List.product rws ?cs) = map Inr rs"
    by simp
  then obtain rs1 rs2 where rs: "rs = rs1 @ rs2"
    and h1: "map (pair_result env df config) (map (Pair cells) ?cs) = map Inr rs1"
    and h2: "map (pair_result env df config) (List.product rws ?cs) = map Inr rs2"
    by (auto simp: append_eq_map_conv)
  from h1 have h1': "map (\<lambda>c. pair_result env df config (cells, c)) ?cs = map Inr rs1"
    by (simp add: comp_def)
  obtain idc where idc: "row_get (columns df) cells (id_column config) = Inr idc"
    using row_get_present [of cells "columns df" "id_column config"] Cons.prems(1) assms(1)
    by auto
  obtain w1 where w1: "url_loop env (columns df) cells (py_str env idc) ?cs acc w
                        = (Inr (acc @ rs1), w1)" "files w1 = files w"
    using url_loop_returns [OF idc h1'] by blast
  have rest: "list_all (\<lambda>cells. length cells = length (columns df)) rws"
    using Cons.prems(1) by simp
  obtain w' where "row_loop env (columns df) config rws (acc @ rs1) w1
                     = (Inr ((acc @ rs1) @ rs2), w')" "files w' = files w1"
    using Cons.IH [OF rest h2, of "acc @ rs1" w1] by blast
  then show ?case using idc w1 rs by simp
qed

section \<open>Facts about the sample inputs\<close>

lemma sample_article_length: "length sample_article = 118"
  by (simp add: sample_article_def)

lemma sample_article_nonempty: "sample_article \<noteq> []"
  by (simp add: sample_article_def)

lemma sample_json_text: "json_text sample_json"
  by (simp add: json_text_def sample_json_def sample_article_def dquote_def strip_def lstrip_def
      rstrip_def is_space_def json_first_def json_last_def)

lemma strip_sample_url: "strip sample_url = sample_url"
  by (simp add: sample_url_def strip_def lstrip_def rstrip_def is_space_def)

lemma sample_url_valid:
  "truthy (PStr sample_url)" "isinstance_str (PStr sample_url)"
  "strip (str_val (PStr sample_url)) \<noteq> []"
  by (simp_all add: strip_sample_url) (simp_all add: sample_url_def)

lemma newspaper_env_result:
  assumes "strip u = u" "u \<noteq> []"
  shows "fst (extract_from_url (quiet_env\<lparr>read_csv := rd,
                newspaper_article := (\<lambda>u. Inr (sample_article, None))\<rparr>) (PStr u) idv w)
         = Inr \<lparr>id_value = idv, url = u, extracted_text = Some sample_article,
                publication_date = None, extraction_method = Some ''newspaper'',
                status = ''success'', error_message = None\<rparr>"
proof -
  let ?env = "quiet_env\<lparr>read_csv := rd, newspaper_article := (\<lambda>u. Inr (sample_article, None))\<rparr>"
  have sa: "strip sample_article = sample_article"
    by (simp add: strip_def lstrip_def rstrip_def is_space_def sample_article_def)
  have n: "extract_with_newspaper ?env (strip (str_val (PStr u))) = Inr (Some sample_article, PNone)"
    by (simp add: extract_with_newspaper_def quiet_env_def try_except_def sa accepted_def
        sample_article_length sample_article_nonempty)
  have d: "normalize_date ?env PNone = Inr None" by (simp add: normalize_date_def)
  have v: "truthy (PStr u)" "isinstance_str (PStr u)" "strip (str_val (PStr u)) \<noteq> []"
    using assms by simp_all
  show ?thesis
    using extract_from_url_newspaper [OF v n, of idv w] assms
    by (simp add: success_result_ok [OF d])
qed

section \<open>The properties\<close>

text \<open>
  C1. A stage that returns text longer than 100 characters does not always give a
  success. The orchestrator normalises the winning stage's date before it builds the
  result, and \<open>normalize_date\<close> lets through every exception other than \<open>ValueError\<close> and
  \<open>TypeError\<close>. When the newspaper and trafilatura stages find nothing, the model stage
  returns a text (longer than 100 characters) and a date, and normalising that date
  raises \<open>e\<close>, then \<open>extract_from_url\<close> raises \<open>e\<close>, after invoking the three stages in
  order, and returns no result. What holds of the cascade when the date is normalised
  without an exception is \<open>first_success_wins\<close> below.
\<close>

theorem success_lost_when_date_raises:
  assumes "truthy u" "isinstance_str u" "strip (str_val u) \<noteq> []"
    and "extract_with_newspaper env (strip (str_val u)) = Inr (None, d0)"
    and "extract_with_trafilatura env (strip (str_val u)) = Inr (None, d1)"
    and "extract_with_gemini env (strip (str_val u)) = Inr (Some t, d)"
    and "normalize_date env d = Inl e"
  shows "100 < length t
       \<and> extract_from_url env u idv w =
           (Inl e,
            w\<lparr>calls := calls w @ [(Newspaper, strip (str_val u)),
                                  (Trafilatura, strip (str_val u)),
                                  (Gemini, strip (str_val u))]\<rparr>)"
proof -
  have "100 < length t" using gemini_returns [OF assms(6)] by (simp add: accepted_def)
  moreover have "extract_from_url env u idv w =
      (Inl e, invoke Gemini (strip (str_val u))
                (invoke Trafilatura (strip (str_val u)) (invoke Newspaper (strip (str_val u)) w)))"
    using extract_from_url_gemini [OF assms(1-6)] success_result_raises [OF assms(7)] by simp
  ultimately show ?thesis by (simp add: invoke_def)
qed

theorem success_lost_when_date_raises_witness:
  "extract_with_gemini
     (quiet_env\<lparr>requests_get := (\<lambda>u. Inr ''<html></html>''),
                gemini_query := (\<lambda>p. Inr sample_json),
                json_loads := (\<lambda>s. Inr (PDict [(''text'', PStr sample_article),
                                                 (''date'', PStr ''1700000000000'')])),
                date_parse := (\<lambda>v. Inl OverflowError)\<rparr>)
     sample_url = Inr (Some sample_article, PStr ''1700000000000'')
   \<and> 100 < length sample_article
   \<and> extract_from_url
       (quiet_env\<lparr>requests_get := (\<lambda>u. Inr ''<html></html>''),
                  gemini_query := (\<lambda>p. Inr sample_json),
                  json_loads := (\<lambda>s. Inr (PDict [(''text'', PStr sample_article),
                                                   (''date'', PStr ''1700000000000'')])),
                  date_parse := (\<lambda>v. Inl OverflowError)\<rparr>)
       (PStr sample_url) ''7'' empty_world =
       (Inl OverflowError,
        empty_world\<lparr>calls := [(Newspaper, sample_url), (Trafilatura, sample_url),
                               (Gemini, sample_url)]\<rparr>)"
proof -
  let ?env = "quiet_env\<lparr>requests_get := (\<lambda>u. Inr ''<html></html>''),
                gemini_query := (\<lambda>p. Inr sample_json),
                json_loads := (\<lambda>s. Inr (PDict [(''text'', PStr sample_article),
                                                 (''date'', PStr ''1700000000000'')])),
                date_parse := (\<lambda>v. Inl OverflowError)\<rparr>"
  have sa: "strip sample_article = sample_article"
    by (simp add: strip_def lstrip_def rstrip_def is_space_def sample_article_def)
  have n: "extract_with_newspaper ?env (strip (str_val (PStr sample_url))) = Inr (None, PNone)"
    by (simp add: extract_with_newspaper_def quiet_env_def try_except_def accepted_def)
  have t: "extract_with_trafilatura ?env (strip (str_val (PStr sample_url))) = Inr (None, PNone)"
    by (simp add: extract_with_trafilatura_def quiet_env_def try_except_def)
  have g: "extract_with_gemini ?env (strip (str_val (PStr sample_url)))
             = Inr (Some sample_article, PStr ''1700000000000'')"
    by (simp add: extract_with_gemini_def parse_response_def quiet_env_def try_except_def sa
        accepted_def sample_article_length sample_article_nonempty)
  have d: "normalize_date ?env (PStr ''1700000000000'') = Inl OverflowError"
    by (simp add: normalize_date_def quiet_env_def try_except_def caught_def is_subclass_def)
  from success_lost_when_date_raises [OF sample_url_valid n t g d, of "''7''" empty_world] g
  show ?thesis by (simp add: strip_sample_url empty_world_def)
qed

text \<open>
  C2. Every result \<open>extract_from_url\<close> returns satisfies the invariant of the data model:
  when its status is \<open>success\<close>, the extracted text is present, non-empty and longer than
  100 characters and the extraction method is set; when its status is \<open>error\<close>, the text,
  the publication date and the method are absent. (Every result the function returns is
  built by one of the three success branches; the two error branches call
  \<open>create_error\<close>, which raises, so they return no result.)
\<close>

theorem extract_from_url_result_invariant:
  assumes "extract_from_url env u idv w = (Inr r, w')"
  shows "(status r = ''success'' \<longrightarrow>
            (\<exists>t. extracted_text r = Some t \<and> t \<noteq> [] \<and> 100 < length t)
            \<and> extraction_method r \<noteq> None)
       \<and> (status r = ''error'' \<longrightarrow>
            extracted_text r = None \<and> publication_date r = None \<and> extraction_method r = None)"
proof -
  obtain tx d m where acc: "accepted tx"
    and res: "success_result env idv (strip (str_val u)) tx d m = Inr r"
    using extract_from_url_Inr [OF assms] by blast
  obtain nd where r: "r = \<lparr>id_value = idv, url = strip (str_val u), extracted_text = tx,
      publication_date = nd, extraction_method = Some m, status = ''success'',
      error_message = None\<rparr>"
    using success_result_Inr [OF res] by blast
  obtain t where t: "tx = Some t" "t \<noteq> []" "100 < length t"
    using acc by (cases "tx") (auto simp: accepted_def)
  show ?thesis using r t by simp
qed

theorem extract_from_url_result_invariant_witness:
  "extract_from_url
     (quiet_env\<lparr>newspaper_article := (\<lambda>u. Inr (sample_article, Some sample_datetime)),
                date_parse := (\<lambda>v. Inr sample_datetime)\<rparr>)
     (PStr ''  https://example.com/news/tram '') ''7'' empty_world
   = (Inr \<lparr>id_value = ''7'', url = sample_url, extracted_text = Some sample_article,
           publication_date = Some ''2024-01-15'', extraction_method = Some ''newspaper'',
           status = ''success'', error_message = None\<rparr>,
      empty_world\<lparr>calls := [(Newspaper, sample_url)]\<rparr>)
   \<and> sample_article \<noteq> [] \<and> 100 < length sample_article"
proof -
  let ?env = "quiet_env\<lparr>newspaper_article := (\<lambda>u. Inr (sample_article, Some sample_datetime)),
                date_parse := (\<lambda>v. Inr sample_datetime)\<rparr>"
  let ?u = "PStr ''  https://example.com/news/tram ''"
  have st: "strip ''  https://example.com/news/tram '' = sample_url"
    by (simp add: strip_def lstrip_def rstrip_def is_space_def sample_url_def)
  have su: "strip (str_val ?u) = sample_url" by (simp add: st)
  have sa: "strip sample_article = sample_article"
    by (simp add: strip_def lstrip_def rstrip_def is_space_def sample_article_def)
  have ne: "sample_article \<noteq> []" by (simp add: sample_article_def)
  have iso: "date_isoformat (dt_date sample_datetime) = ''2024-01-15''"
    by (simp add: date_isoformat_def zpad_def dec.simps sample_datetime_def)
  have np: "extract_with_newspaper ?env sample_url =
              Inr (Some sample_article, PStr (datetime_isoformat sample_datetime))"
    by (simp add: extract_with_newspaper_def quiet_env_def try_except_def sa ne accepted_def
        sample_article_length)
  have nd: "normalize_date ?env (PStr (datetime_isoformat sample_datetime)) = Inr (Some ''2024-01-15'')"
    by (simp add: normalize_date_def quiet_env_def try_except_def iso datetime_isoformat_def)
  have v: "truthy ?u" "isinstance_str ?u" "strip (str_val ?u) \<noteq> []"
    by (simp_all add: st) (simp add: sample_url_def)
  have e: "extract_from_url ?env ?u ''7'' empty_world
     = (Inr \<lparr>id_value = ''7'', url = sample_url, extracted_text = Some sample_article,
           publication_date = Some ''2024-01-15'', extraction_method = Some ''newspaper'',
           status = ''success'', error_message = None\<rparr>,
      empty_world\<lparr>calls := [(Newspaper, sample_url)]\<rparr>)"
    using extract_from_url_newspaper [OF v, of ?env sample_article "PStr (datetime_isoformat sample_datetime)" "''7''" empty_world]
    by (simp only: su np success_result_ok [OF nd]) (simp add: invoke_def empty_world_def)
  from extract_from_url_result_invariant [OF e] e ne sample_article_length show ?thesis by simp
qed

text \<open>
  C3. When all three stages return without text on a valid URL, \<open>extract_from_url\<close>
  reaches its last statement, the call of \<open>ExtractionResult.create_error\<close>. The class has
  no such attribute, so the call raises \<open>AttributeError\<close>: the function returns no error
  result. The three stages have been invoked, in order.
\<close>

theorem all_stages_failed_raises:
  assumes "truthy u" "isinstance_str u" "strip (str_val u) \<noteq> []"
    and "extract_with_newspaper env (strip (str_val u)) = Inr (None, d0)"
    and "extract_with_trafilatura env (strip (str_val u)) = Inr (None, d1)"
    and "extract_with_gemini env (strip (str_val u)) = Inr (None, d2)"
  shows "extract_from_url env u idv w =
           (Inl AttributeError,
            w\<lparr>calls := calls w @ [(Newspaper, strip (str_val u)),
                                  (Trafilatura, strip (str_val u)),
                                  (Gemini, strip (str_val u))]\<rparr>)"
  using extract_from_url_nothing_found [OF assms] by (simp add: invoke_def)

theorem all_stages_failed_raises_witness:
  "extract_with_newspaper quiet_env sample_url = Inr (None, PNone)
   \<and> extract_with_trafilatura quiet_env sample_url = Inr (None, PNone)
   \<and> extract_with_gemini quiet_env sample_url = Inr (None, PNone)
   \<and> extract_from_url quiet_env (PStr sample_url) ''7'' empty_world =
       (Inl AttributeError,
        empty_world\<lparr>calls := [(Newspaper, sample_url), (Trafilatura, sample_url),
                               (Gemini, sample_url)]\<rparr>)"
proof -
  have n: "extract_with_newspaper quiet_env (strip (str_val (PStr sample_url))) = Inr (None, PNone)"
    by (simp add: extract_with_newspaper_def quiet_env_def try_except_def accepted_def)
  have t: "extract_with_trafilatura quiet_env (strip (str_val (PStr sample_url))) = Inr (None, PNone)"
    by (simp add: extract_with_trafilatura_def quiet_env_def try_except_def)
  have g: "extract_with_gemini quiet_env (strip (str_val (PStr sample_url))) = Inr (None, PNone)"
    by (simp add: extract_with_gemini_def quiet_env_def try_except_def caught_def is_subclass_def)
  from all_stages_failed_raises [OF sample_url_valid n t g, of "''7''" empty_world] n t g
  show ?thesis by (simp add: strip_sample_url empty_world_def)
qed

text \<open>
  C4. On a URL that is \<open>None\<close>, not a string, empty or blank, \<open>extract_from_url\<close> invokes
  no extraction stage (the world is unchanged), and its guard calls
  \<open>ExtractionResult.create_error\<close>, which raises \<open>AttributeError\<close>: the function returns
  no error result.
\<close>

theorem invalid_url_raises:
  assumes "\<not> truthy u \<or> \<not> isinstance_str u \<or> strip (str_val u) = []"
  shows "extract_from_url env u idv w = (Inl AttributeError, w)"
proof -
  have guard: "\<not> truthy u \<or> \<not> isinstance_str u \<or> \<not> truthy (PStr (strip (str_val u)))"
    using assms by simp
  have "extract_from_url env u idv w =
          (create_error idv (py_or u (PStr [])) ''Empty or invalid URL'', w)"
    unfolding extract_from_url_def using guard by (simp only: if_True)
  then show ?thesis by (simp add: create_error_def)
qed

theorem invalid_url_raises_witness:
  "extract_from_url quiet_env PNone ''7'' empty_world = (Inl AttributeError, empty_world)
   \<and> extract_from_url quiet_env (PFloat FNaN) ''7'' empty_world = (Inl AttributeError, empty_world)
   \<and> extract_from_url quiet_env (PStr []) ''7'' empty_world = (Inl AttributeError, empty_world)
   \<and> extract_from_url quiet_env (PStr ''   '') ''7'' empty_world = (Inl AttributeError, empty_world)"
proof -
  have b: "strip ''   '' = []" by (simp add: strip_def lstrip_def rstrip_def is_space_def)
  show ?thesis
    using invalid_url_raises [of PNone quiet_env "''7''" empty_world]
      invalid_url_raises [of "PFloat FNaN" quiet_env "''7''" empty_world]
      invalid_url_raises [of "PStr []" quiet_env "''7''" empty_world]
      invalid_url_raises [of "PStr ''   ''" quiet_env "''7''" empty_world]
    by (simp add: b)
qed

text \<open>
  C5. An answer of the model that is a JSON object whose \<open>text\<close> field is not a string
  (\<open>null\<close>, a number, a list) makes \<open>.strip()\<close> raise \<open>AttributeError\<close> inside
  \<open>extract_with_gemini\<close>. The stage's \<open>except\<close> clause lists \<open>LLMExtractionError\<close>,
  \<open>RequestException\<close>, \<open>JSONDecodeError\<close> and \<open>KeyError\<close>, so the exception leaves the
  stage instead of becoming the negative result.
\<close>

theorem gemini_malformed_field_raises:
  assumes "requests_get env u = Inr html_content"
    and "gemini_query env (make_prompt html_content) = Inr response_text"
    and "json_loads env (strip_fences response_text) = Inr (PDict kvs)"
    and "map_of kvs ''text'' = Some v" and "\<not> isinstance_str v"
  shows "extract_with_gemini env u = Inl AttributeError"
proof -
  have "py_strip v = Inl AttributeError" using assms(5) by (cases v) simp_all
  then have "parse_response env response_text = Inl AttributeError"
    using assms(3,4) by (simp add: parse_response_def)
  then show ?thesis
    using assms(1,2)
    by (simp add: extract_with_gemini_def try_except_def caught_def is_subclass_def)
qed

theorem gemini_malformed_field_raises_witness:
  "extract_with_gemini
     (quiet_env\<lparr>requests_get := (\<lambda>u. Inr ''<html></html>''),
                gemini_query := (\<lambda>p. Inr (''{'' @ dquote @ ''text'' @ dquote @ '': null}'')),
                json_loads := (\<lambda>s. Inr (PDict [(''text'', PNone)]))\<rparr>)
     sample_url = Inl AttributeError"
  by (rule gemini_malformed_field_raises [where kvs = "[(''text'', PNone)]" and v = PNone])
     (simp_all add: quiet_env_def)

text \<open>
  C6. Wrapping a JSON payload in Markdown code fences does not change what the parsing
  of the model's answer yields: with a leading fence, bare or tagged \<open>json\<close>, and/or a
  trailing fence, and any whitespace before, between and after them, \<open>parse_response\<close>
  gives the same (text, date) outcome as on the bare payload, whatever \<open>json.loads\<close>
  does with the cleaned text.
\<close>

theorem fenced_response_parsed_like_bare:
  assumes "json_text p"
    and "lead \<in> {[], fence, fence_json}" and "trail \<in> {[], fence}"
    and "list_all is_space w1" "list_all is_space w2" "list_all is_space w3" "list_all is_space w4"
  shows "parse_response env (w1 @ lead @ w2 @ p @ w3 @ trail @ w4) = parse_response env p"
  using strip_fences_fenced [OF assms] strip_fences_bare [OF assms(1)]
  by (simp add: parse_response_def)

theorem fenced_response_parsed_like_bare_witness:
  "json_text sample_json
   \<and> parse_response (quiet_env\<lparr>json_loads := sample_loads\<rparr>)
        (fence_json @ newline @ sample_json @ newline @ fence @ newline)
      = Inr (Some sample_article, PStr ''15 January 2024'')
   \<and> parse_response (quiet_env\<lparr>json_loads := sample_loads\<rparr>) sample_json
      = Inr (Some sample_article, PStr ''15 January 2024'')"
proof -
  let ?env = "quiet_env\<lparr>json_loads := sample_loads\<rparr>"
  have sp: "list_all is_space newline" "list_all is_space []"
    by (simp_all add: newline_def is_space_def)
  have st: "strip sample_json = sample_json"
    by (simp add: sample_json_def sample_article_def dquote_def strip_def lstrip_def
        rstrip_def is_space_def)
  have sa: "strip sample_article = sample_article"
    by (simp add: strip_def lstrip_def rstrip_def is_space_def sample_article_def)
  have bare: "parse_response ?env sample_json = Inr (Some sample_article, PStr ''15 January 2024'')"
    by (simp add: parse_response_def strip_fences_bare [OF sample_json_text] st quiet_env_def
        sample_loads_def sample_dict_def sa accepted_def sample_article_length
        sample_article_nonempty)
  have "parse_response ?env ([] @ fence_json @ newline @ sample_json @ newline @ fence @ newline)
          = parse_response ?env sample_json"
    by (rule fenced_response_parsed_like_bare [OF sample_json_text _ _ sp(2) sp(1) sp(1) sp(1)])
       simp_all
  with bare sample_json_text show ?thesis by simp
qed

text \<open>
  C7. \<open>normalize_date\<close> catches \<open>ValueError\<close> and \<open>TypeError\<close> only. When the value is
  truthy and the date parser raises an exception of any other class (dateutil raises
  \<open>OverflowError\<close> for a text such as \<open>1700000000000\<close>, a timestamp in milliseconds
  that it reads as a year too large for a C integer), \<open>normalize_date\<close> raises it
  instead of returning \<open>None\<close>. The inputs on which
  it does return \<open>None\<close> are those of \<open>normalize_date_absent\<close> below.
\<close>

theorem normalize_date_uncaught:
  assumes "truthy v" and "date_parse env v = Inl e" and "\<not> caught [ValueError, TypeError] e"
  shows "normalize_date env v = Inl e"
  using assms by (simp add: normalize_date_def try_except_def)

theorem normalize_date_uncaught_witness:
  "normalize_date (quiet_env\<lparr>date_parse := (\<lambda>v. Inl OverflowError)\<rparr>) (PStr ''1700000000000'')
     = Inl OverflowError"
  by (rule normalize_date_uncaught) (simp_all add: quiet_env_def caught_def is_subclass_def)

text \<open>
  C8. \<open>normalize_date\<close> leaves a canonical date unchanged: for a text in the form
  year-month-day (four digits, dash, two digits, dash, two digits) that the date parser
  reads as the date it spells, the result is that same text. The parser is dateutil's;
  what the extractor adds is \<open>.date().isoformat()\<close>, which prints the date back in exactly
  that form.
\<close>

theorem normalize_date_canonical:
  assumes "canonical_date s"
    and "date_parse env (PStr s) = Inr parsed"
    and "dt_date parsed = spelled_date s"
  shows "normalize_date env (PStr s) = Inr (Some s)"
  using assms canonical_date_nonempty [OF assms(1)]
  by (simp add: normalize_date_def try_except_def isoformat_spelled)

theorem normalize_date_canonical_witness:
  "canonical_date ''2024-01-15''
   \<and> dt_date sample_datetime = spelled_date ''2024-01-15''
   \<and> normalize_date (quiet_env\<lparr>date_parse := (\<lambda>v. Inr sample_datetime)\<rparr>) (PStr ''2024-01-15'')
       = Inr (Some ''2024-01-15'')"
proof -
  let ?env = "quiet_env\<lparr>date_parse := (\<lambda>v. Inr sample_datetime)\<rparr>"
  have c: "canonical_date ''2024-01-15''"
    by (simp add: canonical_date_def is_digit_def)
  have p: "date_parse ?env (PStr ''2024-01-15'') = Inr sample_datetime"
    by (simp add: quiet_env_def)
  have d: "dt_date sample_datetime = spelled_date ''2024-01-15''"
    by (simp add: sample_datetime_def spelled_date_def num_of_def digit_val_def)
  from normalize_date_canonical [OF c p d] c d show ?thesis by simp
qed

text \<open>
  C9. \<open>process_csv\<close> appends one result per (row, URL column) pair only as long as every
  extraction returns one. A pair whose URL cell is empty, blank or not a string makes
  \<open>extract_from_url\<close> raise \<open>AttributeError\<close> (C4), and the exception ends \<open>process_csv\<close>
  before anything is written: here for the first pair of the table. No error row is ever
  produced. The rows written when every extraction returns are those of
  \<open>process_csv_row_per_pair\<close> below.
\<close>

theorem process_csv_aborts_on_invalid_url:
  assumes "read_csv env input_csv = Inr df"
    and "id_column config \<in> set (columns df)"
    and "set (url_columns config) \<subseteq> set (columns df)"
    and "rows df = cells # more_rows"
    and "url_columns config = url_col # more_cols"
    and "row_get (columns df) cells (id_column config) = Inr idc"
    and "row_get (columns df) cells url_col = Inr u"
    and "\<not> truthy u \<or> \<not> isinstance_str u \<or> strip (str_val u) = []"
  shows "process_csv env input_csv output_csv config w = (Inl AttributeError, w)"
proof -
  have f: "filter (\<lambda>col. col \<notin> set (columns df)) (url_columns config) = []"
    using assms(3) by (auto simp: filter_empty_conv)
  have "url_loop env (columns df) cells (py_str env idc) (url_columns config) [] w
          = (Inl AttributeError, w)"
    using assms(5,7) extract_from_url_invalid [OF assms(8)] by simp
  then have "row_loop env (columns df) config (rows df) [] w = (Inl AttributeError, w)"
    using assms(4,6) by simp
  then show ?thesis using assms(1,2) f by (simp add: process_csv_def)
qed

theorem process_csv_aborts_on_invalid_url_witness:
  "process_csv
     (quiet_env\<lparr>read_csv := (\<lambda>p. Inr \<lparr>columns = [''id'', ''link''],
                                        rows = [[PInt 1, PFloat FNaN]]\<rparr>)\<rparr>)
     ''in.csv'' ''out.csv'' \<lparr>id_column = ''id'', url_columns = [''link'']\<rparr> empty_world
   = (Inl AttributeError, empty_world)
   \<and> files empty_world ''out.csv'' = None"
proof -
  let ?df = "\<lparr>columns = [''id'', ''link''], rows = [[PInt 1, PFloat FNaN]]\<rparr>"
  let ?env = "quiet_env\<lparr>read_csv := (\<lambda>p. Inr ?df)\<rparr>"
  let ?cfg = "\<lparr>id_column = ''id'', url_columns = [''link'']\<rparr>"
  have "process_csv ?env ''in.csv'' ''out.csv'' ?cfg empty_world = (Inl AttributeError, empty_world)"
    by (rule process_csv_aborts_on_invalid_url
          [where df = ?df and cells = "[PInt 1, PFloat FNaN]" and more_rows = "[]"
             and url_col = "''link''" and more_cols = "[]" and idc = "PInt 1"
             and u = "PFloat FNaN"])
       (simp_all add: quiet_env_def row_get_def)
  then show ?thesis by (simp add: empty_world_def)
qed

text \<open>
  C10. When the configured identifier column or one of the configured URL columns is
  missing from the table read, \<open>process_csv\<close> raises \<open>ValueError\<close> and leaves the world
  as it was: no row has been processed (no extraction stage invoked) and no output has
  been written.
\<close>

theorem process_csv_missing_column:
  assumes "read_csv env input_csv = Inr df"
    and "id_column config \<notin> set (columns df)
         \<or> (\<exists>col \<in> set (url_columns config). col \<notin> set (columns df))"
  shows "process_csv env input_csv output_csv config w = (Inl ValueError, w)"
proof (cases "id_column config \<in> set (columns df)")
  case False
  then show ?thesis using assms(1) by (simp add: process_csv_def)
next
  case True
  with assms(2) have "filter (\<lambda>col. col \<notin> set (columns df)) (url_columns config) \<noteq> []"
    by (auto simp: filter_empty_conv)
  then show ?thesis using assms(1) True by (simp add: process_csv_def)
qed

theorem process_csv_missing_column_witness:
  "process_csv
     (quiet_env\<lparr>read_csv := (\<lambda>p. Inr \<lparr>columns = [''name'', ''link''],
                                        rows = [[PStr ''a'', PStr sample_url]]\<rparr>)\<rparr>)
     ''in.csv'' ''out.csv'' \<lparr>id_column = ''id'', url_columns = [''link'']\<rparr> empty_world
   = (Inl ValueError, empty_world)
   \<and> calls empty_world = [] \<and> files empty_world ''out.csv'' = None"
proof -
  let ?df = "\<lparr>columns = [''name'', ''link''], rows = [[PStr ''a'', PStr sample_url]]\<rparr>"
  let ?env = "quiet_env\<lparr>read_csv := (\<lambda>p. Inr ?df)\<rparr>"
  let ?cfg = "\<lparr>id_column = ''id'', url_columns = [''link'']\<rparr>"
  have r: "read_csv ?env ''in.csv'' = Inr ?df" by (simp add: quiet_env_def)
  have m: "id_column ?cfg \<notin> set (columns ?df)
           \<or> (\<exists>col \<in> set (url_columns ?cfg). col \<notin> set (columns ?df))"
    by simp
  from process_csv_missing_column [OF r m] show ?thesis by (simp add: empty_world_def)
qed

section \<open>Further properties\<close>

text \<open>
  First success wins. On a valid URL, when every stage before \<open>st\<close> returns nothing,
  stage \<open>st\<close> returns a text and a date, and the date is normalised without an exception,
  \<open>extract_from_url\<close> returns a success that carries that text (longer than 100
  characters), the normalised date and the name of \<open>st\<close>; the stages invoked are those
  up to \<open>st\<close>, in order, and no later one.
\<close>

theorem first_success_wins:
  assumes "truthy u" "isinstance_str u" "strip (str_val u) \<noteq> []"
    and "list_all (\<lambda>s. stage_fn s env (strip (str_val u)) = Inr (None, PNone)) (stages_before st)"
    and "stage_fn st env (strip (str_val u)) = Inr (Some t, d)"
    and "normalize_date env d = Inr nd"
  shows "extract_from_url env u idv w =
           (Inr \<lparr>id_value = idv, url = strip (str_val u), extracted_text = Some t,
                  publication_date = nd, extraction_method = Some (method_name st),
                  status = ''success'', error_message = None\<rparr>,
            w\<lparr>calls := calls w @ map (\<lambda>s. (s, strip (str_val u))) (stages_before st @ [st])\<rparr>)
         \<and> 100 < length t"
proof -
  have len: "100 < length t"
    using assms(5) newspaper_returns trafilatura_returns gemini_returns
    by (cases st) (fastforce simp: accepted_def)+
  have "extract_from_url env u idv w =
           (Inr \<lparr>id_value = idv, url = strip (str_val u), extracted_text = Some t,
                  publication_date = nd, extraction_method = Some (method_name st),
                  status = ''success'', error_message = None\<rparr>,
            w\<lparr>calls := calls w @ map (\<lambda>s. (s, strip (str_val u))) (stages_before st @ [st])\<rparr>)"
  proof (cases st)
    case Newspaper
    then show ?thesis
      using assms extract_from_url_newspaper [OF assms(1-3), of env t d idv w]
      by (simp add: success_result_ok invoke_def)
  next
    case Trafilatura
    then show ?thesis
      using assms extract_from_url_trafilatura [OF assms(1-3), of env PNone t d idv w]
      by (simp add: success_result_ok invoke_def)
  next
    case Gemini
    then show ?thesis
      using assms extract_from_url_gemini [OF assms(1-3), of env PNone PNone t d idv w]
      by (simp add: success_result_ok invoke_def)
  qed
  with len show ?thesis by simp
qed

theorem first_success_wins_witness:
  "extract_from_url
     (quiet_env\<lparr>fetch_url := (\<lambda>u. Inr (Some ''<html></html>'')),
                trafilatura_extract := (\<lambda>h. Inr (Some sample_article)),
                requests_get := (\<lambda>u. Inr ''<html></html>''),
                gemini_query := (\<lambda>p. Inr sample_json),
                json_loads := sample_loads\<rparr>)
     (PStr sample_url) ''7'' empty_world
   = (Inr \<lparr>id_value = ''7'', url = sample_url, extracted_text = Some sample_article,
           publication_date = None, extraction_method = Some ''trafilatura'',
           status = ''success'', error_message = None\<rparr>,
      empty_world\<lparr>calls := [(Newspaper, sample_url), (Trafilatura, sample_url)]\<rparr>)"
proof -
  let ?env = "quiet_env\<lparr>fetch_url := (\<lambda>u. Inr (Some ''<html></html>'')),
                trafilatura_extract := (\<lambda>h. Inr (Some sample_article)),
                requests_get := (\<lambda>u. Inr ''<html></html>''),
                gemini_query := (\<lambda>p. Inr sample_json),
                json_loads := sample_loads\<rparr>"
  have n: "list_all (\<lambda>s. stage_fn s ?env (strip (str_val (PStr sample_url))) = Inr (None, PNone))
             (stages_before Trafilatura)"
    by (simp add: extract_with_newspaper_def quiet_env_def try_except_def accepted_def)
  have t: "stage_fn Trafilatura ?env (strip (str_val (PStr sample_url))) = Inr (Some sample_article, PNone)"
    by (simp add: extract_with_trafilatura_def quiet_env_def try_except_def accepted_def
        sample_article_length sample_article_nonempty)
  have d: "normalize_date ?env PNone = Inr None"
    by (simp add: normalize_date_def)
  from first_success_wins [OF sample_url_valid n t d, of "''7''" empty_world]
  show ?thesis by (simp add: strip_sample_url empty_world_def)
qed

text \<open>
  One output row per (row, URL column) pair. When the columns exist, the table is well
  formed and the orchestrator returns a result for every pair, \<open>process_csv\<close> returns
  and writes exactly those results, rows outermost and URL columns in their configured
  order: N times M rows for N rows and M URL columns.
\<close>

theorem process_csv_row_per_pair:
  assumes "read_csv env input_csv = Inr df" and "well_formed df"
    and "id_column config \<in> set (columns df)"
    and "set (url_columns config) \<subseteq> set (columns df)"
    and "map (pair_result env df config) (List.product (rows df) (url_columns config))
           = map Inr results"
  shows "(\<exists>w'. process_csv env input_csv output_csv config w = (Inr (), w')
               \<and> files w' = (files w)(output_csv \<mapsto> map to_row results))
       \<and> length results = length (rows df) * length (url_columns config)"
proof -
  have f: "filter (\<lambda>col. col \<notin> set (columns df)) (url_columns config) = []"
    using assms(4) by (auto simp: filter_empty_conv)
  obtain w1 where w1: "row_loop env (columns df) config (rows df) [] w = (Inr ([] @ results), w1)"
      "files w1 = files w"
    using row_loop_returns [OF assms(3) assms(2) [unfolded well_formed_def] assms(5)] by blast
  have "process_csv env input_csv output_csv config w
          = (Inr (), w1\<lparr>files := (files w1)(output_csv \<mapsto> map to_row results)\<rparr>)"
    using assms(1,3) f w1(1) by (simp add: process_csv_def)
  moreover have "length (map (pair_result env df config)
                    (List.product (rows df) (url_columns config))) = length (map Inr results)"
    using assms(5) by simp
  then have "length results = length (rows df) * length (url_columns config)"
    by (simp add: length_product)
  ultimately show ?thesis using w1(2) by simp
qed

theorem process_csv_row_per_pair_witness:
  "(\<exists>w'. process_csv
           (quiet_env\<lparr>read_csv := (\<lambda>p. Inr \<lparr>columns = [''id'', ''a'', ''b''],
                                             rows = [[PStr ''1'', PStr ''u1a'', PStr ''u1b''],
                                                     [PStr ''2'', PStr ''u2a'', PStr ''u2b'']]\<rparr>),
                      newspaper_article := (\<lambda>u. Inr (sample_article, None))\<rparr>)
           ''in.csv'' ''out.csv'' \<lparr>id_column = ''id'', url_columns = [''a'', ''b'']\<rparr> empty_world
         = (Inr (), w')
       \<and> files w' ''out.csv'' =
           Some (map (\<lambda>(i, u). to_row \<lparr>id_value = i, url = u,
                                        extracted_text = Some sample_article,
                                        publication_date = None,
                                        extraction_method = Some ''newspaper'',
                                        status = ''success'', error_message = None\<rparr>)
                   [(''1'', ''u1a''), (''1'', ''u1b''), (''2'', ''u2a''), (''2'', ''u2b'')]))"
proof -
  let ?df = "\<lparr>columns = [''id'', ''a'', ''b''],
              rows = [[PStr ''1'', PStr ''u1a'', PStr ''u1b''],
                      [PStr ''2'', PStr ''u2a'', PStr ''u2b'']]\<rparr>"
  let ?rd = "\<lambda>p::string. (Inr ?df :: exn + dataframe)"
  let ?env = "quiet_env\<lparr>read_csv := ?rd, newspaper_article := (\<lambda>u. Inr (sample_article, None))\<rparr>"
  let ?cfg = "\<lparr>id_column = ''id'', url_columns = [''a'', ''b'']\<rparr>"
  let ?res = "map (\<lambda>(i, u). \<lparr>id_value = i, url = u, extracted_text = Some sample_article,
                              publication_date = None, extraction_method = Some ''newspaper'',
                              status = ''success'', error_message = None\<rparr>)
                [(''1'', ''u1a''), (''1'', ''u1b''), (''2'', ''u2a''), (''2'', ''u2b'')]"
  have s: "strip ''u1a'' = ''u1a''" "strip ''u1b'' = ''u1b''" "strip ''u2a'' = ''u2a''"
          "strip ''u2b'' = ''u2b''"
    by (simp_all add: strip_def lstrip_def rstrip_def is_space_def)
  have r: "read_csv ?env ''in.csv'' = Inr ?df" by (simp add: quiet_env_def)
  have wf: "well_formed ?df" by (simp add: well_formed_def)
  have p: "map (pair_result ?env ?df ?cfg) (List.product (rows ?df) (url_columns ?cfg))
             = map Inr ?res"
    by (simp add: pair_result_def row_get_def py_str_def newspaper_env_result s)
  have "(\<exists>w'. process_csv ?env ''in.csv'' ''out.csv'' ?cfg empty_world = (Inr (), w')
               \<and> files w' = (files empty_world)(''out.csv'' \<mapsto> map to_row ?res))
        \<and> length ?res = length (rows ?df) * length (url_columns ?cfg)"
    by (rule process_csv_row_per_pair [OF r wf _ _ p]) simp_all
  then obtain w' where "process_csv ?env ''in.csv'' ''out.csv'' ?cfg empty_world = (Inr (), w')"
    "files w' = (files empty_world)(''out.csv'' \<mapsto> map to_row ?res)"
    by blast
  then show ?thesis by (intro exI [of _ w']) (simp add: comp_def case_prod_unfold)
qed

text \<open>
  Absent dates. \<open>normalize_date\<close> returns \<open>None\<close> for a falsy value (\<open>None\<close>, the empty string, zero)
  and for a value on which the date parser raises \<open>ValueError\<close> or \<open>TypeError\<close> or one of
  their subclasses: an unparsable text (dateutil's \<open>ParserError\<close>) or a value that is
  not a string.
\<close>

theorem normalize_date_absent:
  assumes "\<not> truthy v \<or> (\<exists>e. date_parse env v = Inl e \<and> (is_subclass e ValueError \<or> is_subclass e TypeError))"
  shows "normalize_date env v = Inr None"
  using assms by (auto simp: normalize_date_def try_except_def caught_def)

theorem normalize_date_absent_witness:
  "normalize_date quiet_env PNone = Inr None
   \<and> normalize_date quiet_env (PStr ''not-a-date'') = Inr None
   \<and> normalize_date (quiet_env\<lparr>date_parse := (\<lambda>v. Inl TypeError)\<rparr>) (PInt 20240115) = Inr None"
  using normalize_date_absent [of PNone quiet_env]
    normalize_date_absent [of "PStr ''not-a-date''" quiet_env]
    normalize_date_absent [of "PInt 20240115" "quiet_env\<lparr>date_parse := (\<lambda>v. Inl TypeError)\<rparr>"]
  by (simp add: quiet_env_def is_subclass_def)

text \<open>
  Absorbed failures. Each stage turns an exception of a class its \<open>except\<close> clause lists
  into the negative result: a failed download or parse in the newspaper stage, a failed
  fetch in the trafilatura stage, a failed HTTP request and an answer that is not JSON in
  the model stage.
\<close>

theorem stages_absorb_listed_exceptions:
  "(newspaper_article env u = Inl e
      \<and> caught [ArticleDownloadError, ArticleParseError, ValueError, OSError] e
      \<longrightarrow> extract_with_newspaper env u = Inr (None, PNone))
   \<and> (fetch_url env u = Inl e \<and> caught [HTMLFetchError, ValueError, OSError] e
      \<longrightarrow> extract_with_trafilatura env u = Inr (None, PNone))
   \<and> (requests_get env u = Inl e
      \<and> caught [LLMExtractionError, RequestException, JSONDecodeError, KeyError] e
      \<longrightarrow> extract_with_gemini env u = Inr (None, PNone))
   \<and> (requests_get env u = Inr html_content
      \<and> gemini_query env (make_prompt html_content) = Inr response_text
      \<and> json_loads env (strip_fences response_text) = Inl JSONDecodeError
      \<longrightarrow> extract_with_gemini env u = Inr (None, PNone))"
  by (simp add: extract_with_newspaper_def extract_with_trafilatura_def extract_with_gemini_def
      parse_response_def try_except_def caught_def is_subclass_def)

theorem stages_absorb_listed_exceptions_witness:
  "extract_with_newspaper (quiet_env\<lparr>newspaper_article := (\<lambda>u. Inl OSError)\<rparr>) sample_url
     = Inr (None, PNone)
   \<and> extract_with_trafilatura (quiet_env\<lparr>fetch_url := (\<lambda>u. Inl OSError)\<rparr>) sample_url
     = Inr (None, PNone)
   \<and> extract_with_gemini quiet_env sample_url = Inr (None, PNone)
   \<and> extract_with_gemini
       (quiet_env\<lparr>requests_get := (\<lambda>u. Inr ''<html></html>''),
                  gemini_query := (\<lambda>p. Inr ''not json'')\<rparr>) sample_url
     = Inr (None, PNone)"
  using stages_absorb_listed_exceptions
          [of "quiet_env\<lparr>newspaper_article := (\<lambda>u. Inl OSError)\<rparr>" sample_url OSError]
        stages_absorb_listed_exceptions
          [of "quiet_env\<lparr>fetch_url := (\<lambda>u. Inl OSError)\<rparr>" sample_url OSError]
        stages_absorb_listed_exceptions [of quiet_env sample_url RequestException]
        stages_absorb_listed_exceptions
          [of "quiet_env\<lparr>requests_get := (\<lambda>u. Inr ''<html></html>''),
                  gemini_query := (\<lambda>p. Inr ''not json'')\<rparr>" sample_url RequestException
              "''<html></html>''" "''not json''"]
  by (simp add: quiet_env_def caught_def is_subclass_def)

end
